theory Spec2Isabelle
  imports Main
begin

section \<open>Installation sync engine (src/sync/installation.ts)\<close>

text \<open>
  A shallow embedding of the installation sync engine: task selection
  (\<open>getNextTask\<close>), the page-size fallback (\<open>execute\<close>), the progress update
  (\<open>updateJobStatus\<close>) and the job handler with its failure classification
  (\<open>processInstallation\<close>). Promises are modelled by their outcome: an \<open>await\<close> that
  rejects is an error value, and everything the engine writes (the stored subscription row,
  the queue, logs, metrics, the calls to Jira) is a field of an explicit \<open>world\<close>.
  The Sentry context calls (\<open>job.sentry.setUser\<close>, \<open>setExtra\<close>) only annotate reports
  and are left out.
\<close>

subsection \<open>Data model\<close>

text \<open>The task catalog: the keys of \<open>tasks\<close>, in declaration order.\<close>

datatype task_type = Pull | Branch | Commit

definition taskTypes :: "task_type list" where
  "taskTypes = [Pull, Branch, Commit]"

text \<open>The two status strings the engine writes, \<open>'pending'\<close> and \<open>'complete'\<close>.\<close>

datatype task_status = Pending | Complete

datatype sync_status = PENDING | ACTIVE | COMPLETE | FAILED

text \<open>
  The repository summary. Only \<open>updated_at\<close> is read by the engine; the comparator of
  \<open>sortedRepos\<close> subtracts it, so it is a number.
\<close>

record repository =
  repo_id :: nat
  repo_name :: string
  updated_at :: int

text \<open>
  One entry of \<open>repoSyncState.repos\<close>. Every property may be missing (\<open>undefined\<close>):
  the summary is absent from old records, a status and a cursor until they are first written.
\<close>

record repo_data =
  repository :: "repository option"
  pullStatus :: "task_status option"
  branchStatus :: "task_status option"
  commitStatus :: "task_status option"
  lastPullCursor :: "string option"
  lastBranchCursor :: "string option"
  lastCommitCursor :: "string option"

text \<open>
  \<open>repos\<close> is a JavaScript object keyed by the repository id. The keys are integers, and
  \<open>Object.keys\<close>/\<open>Object.entries\<close> enumerate integer keys in ascending numeric order
  whatever the order of insertion was: the object is the list of its entries in that order.
\<close>

type_synonym repositories = "(nat \<times> repo_data) list"

definition wf_repos :: "repositories \<Rightarrow> bool" where
  "wf_repos rs = (sorted (map fst rs) \<and> distinct (map fst rs))"

record subscription =
  syncStatus :: sync_status
  repos :: repositories
  numberOfSyncedRepos :: "nat option"

text \<open>
  A thrown value. \<open>err_errors\<close> holds \<open>errors[].type\<close> when \<open>err.errors\<close> is present;
  \<open>err_ratelimit_reset\<close> is the number \<open>+(err.headers && err.headers['x-ratelimit-reset'])\<close>,
  with \<open>None\<close> for \<open>NaN\<close> (no headers, no such header, or not a number).
\<close>

record js_error =
  err_name :: string
  err_message :: string
  err_errors :: "string list option"
  err_ratelimit_reset :: "int option"

text \<open>\<open>String(err)\<close> for an \<open>Error\<close> object (\<open>Error.prototype.toString\<close>).\<close>

definition String_of :: "js_error \<Rightarrow> string" where
  "String_of err =
     (if err_name err = [] then err_message err
      else if err_message err = [] then err_name err
      else err_name err @ '': '' @ err_message err)"

fun startsWith :: "string \<Rightarrow> string \<Rightarrow> bool" where
  "startsWith s [] = True"
| "startsWith [] (p # ps) = False"
| "startsWith (c # cs) (p # ps) = (c = p \<and> startsWith cs ps)"

fun str_includes :: "string \<Rightarrow> string \<Rightarrow> bool" where
  "str_includes [] pat = (pat = [])"
| "str_includes (c # cs) pat = (startsWith (c # cs) pat \<or> str_includes cs pat)"

datatype jira_payload = JiraPayload nat

datatype edge = Edge (cursor: string)

record page =
  edges :: "edge list"
  jiraPayload :: "jira_payload option"

subsection \<open>Page-size fallback\<close>

text \<open>
  \<open>handleGitHubError\<close> returns (the error is absorbed) when \<open>err.errors\<close> is present and
  no entry has a type outside \<open>ignoredErrorTypes\<close>; otherwise it throws \<open>err\<close> again.
  \<open>True\<close> stands for the throw.
\<close>

definition ignoredErrorTypes :: "string list" where
  "ignoredErrorTypes = [''MAX_NODE_LIMIT_EXCEEDED'']"

definition handleGitHubError :: "js_error \<Rightarrow> bool" where
  "handleGitHubError err =
     (case err_errors err of
        Some errors \<Rightarrow>
          (let notIgnoredError = length (filter (\<lambda>t. t \<notin> set ignoredErrorTypes) errors)
           in notIgnoredError \<noteq> 0)
      | None \<Rightarrow> True)"

text \<open>
  The error thrown after the loop of \<open>execute\<close>. Its message goes on with the ids of the
  installation and the repository and the name of the task; no branch of the engine depends
  on them.
\<close>

definition exhausted_error :: js_error where
  "exhausted_error =
     \<lparr>err_name = ''Error'', err_message = ''Error processing GraphQL query'',
      err_errors = None, err_ratelimit_reset = None\<rparr>"

text \<open>
  The loop of \<open>execute\<close> over the page sizes still to try. The result carries the page
  sizes the processor was called with, in call order.
\<close>

fun execute_loop :: "(nat \<Rightarrow> js_error + page) \<Rightarrow> nat list \<Rightarrow> nat list \<times> (js_error + page)" where
  "execute_loop pagedProcessor [] = ([], Inl exhausted_error)"
| "execute_loop pagedProcessor (perPage # rest) =
     (case pagedProcessor perPage of
        Inr result \<Rightarrow> ([perPage], Inr result)
      | Inl err \<Rightarrow>
          if handleGitHubError err then ([perPage], Inl err)
          else (let (calls, r) = execute_loop pagedProcessor rest in (perPage # calls, r)))"

definition execute :: "(nat \<Rightarrow> js_error + page) \<Rightarrow> nat list \<times> (js_error + page)" where
  "execute pagedProcessor = execute_loop pagedProcessor [20, 10, 5, 1]"

text \<open>
  Capacity-exceeded, as the fallback sees it: \<open>errors[]\<close> is present and every entry has an
  ignored type.
\<close>

definition capacity_exceeded :: "js_error \<Rightarrow> bool" where
  "capacity_exceeded err =
     (case err_errors err of
        Some errors \<Rightarrow> list_all (\<lambda>t. t \<in> set ignoredErrorTypes) errors
      | None \<Rightarrow> False)"

subsection \<open>Jobs, the queue and the world\<close>

record job_data =
  installationId :: nat
  jiraHost :: string
  startTime :: "string option"

record job_opts =
  removeOnComplete :: "bool option"
  removeOnFail :: "bool option"

record job =
  data :: job_data
  opts :: job_opts

text \<open>The options object passed to \<open>queues.installation.add\<close>; an absent key is \<open>None\<close>.\<close>

record add_opts =
  add_attempts :: "nat option"
  add_delay :: "int option"
  add_removeOnComplete :: "bool option"
  add_removeOnFail :: "bool option"

datatype log_entry =
    StartingJob
  | StartingTask nat task_type
  | OrgDeleted
  | UpdatingJobStatus nat task_type task_status
  | SyncComplete "int option option"
  | SyncPending
  | WarnMigrationComplete js_error
  | Delaying int
  | TimedOut
  | AbuseDetection
  | RepositoryDeleted

text \<open>
  Everything the engine reads and writes outside its own variables: the stored row of the
  installation (\<open>None\<close> once the installation is deleted), the jobs added to the installation
  queue, the log, the values sent to the \<open>full_sync\<close> histogram (\<open>None\<close> is \<open>NaN\<close>), the
  number of calls of \<open>jiraClient.devinfo.migration.complete\<close>, and the page sizes the task
  processor was called with.
\<close>

record world =
  db :: "subscription option"
  queue :: "(job_data \<times> add_opts) list"
  logs :: "log_entry list"
  full_sync :: "int option list"
  migration_complete_calls :: nat
  fetched :: "nat list"

text \<open>
  What the collaborators answer during one job: \<open>Date.now()\<close> (one reading serves the
  whole job, no two readings are ever compared), the number
  \<open>Number(process.env.LIMITER_PER_INSTALLATION)\<close> (\<open>None\<close> is \<open>NaN\<close>), \<open>Date.parse\<close>, the
  outcome of the migration-complete call (\<open>Some\<close> is a rejection), the task processors
  (\<open>tasks[task]\<close> applied to repository, cursor and page size), the outcome of
  \<open>jiraClient.devinfo.repository.update\<close>, the answer to \<open>GET /repositories/:id\<close> passed
  through \<open>getRepositorySummary\<close>, and what other writers did to the stored row while the
  fetch was running.
\<close>

record env =
  now :: int
  LIMITER_PER_INSTALLATION :: "int option"
  Date_parse :: "string \<Rightarrow> int option"
  migration_complete :: "js_error option"
  processor :: "task_type \<Rightarrow> repository \<Rightarrow> string option \<Rightarrow> nat \<Rightarrow> js_error + page"
  jira_update :: "jira_payload \<Rightarrow> js_error option"
  get_repository :: "nat \<Rightarrow> js_error + repository"
  concurrent :: "subscription option \<Rightarrow> subscription option"

definition log :: "log_entry \<Rightarrow> world \<Rightarrow> world" where
  "log l w = w\<lparr>logs := logs w @ [l]\<rparr>"

definition queue_add :: "job_data \<Rightarrow> add_opts \<Rightarrow> world \<Rightarrow> world" where
  "queue_add d os w = w\<lparr>queue := queue w @ [(d, os)]\<rparr>"

subsection \<open>The progress store\<close>

text \<open>The property \<open>`${task}Status`\<close> and the property \<open>getCursorKey(task)\<close> of an entry.\<close>

fun taskStatus :: "repo_data \<Rightarrow> task_type \<Rightarrow> task_status option" where
  "taskStatus d Pull = pullStatus d"
| "taskStatus d Branch = branchStatus d"
| "taskStatus d Commit = commitStatus d"

fun getCursor :: "repo_data \<Rightarrow> task_type \<Rightarrow> string option" where
  "getCursor d Pull = lastPullCursor d"
| "getCursor d Branch = lastBranchCursor d"
| "getCursor d Commit = lastCommitCursor d"

fun setTaskStatus :: "task_type \<Rightarrow> task_status \<Rightarrow> repo_data \<Rightarrow> repo_data" where
  "setTaskStatus Pull st d = d\<lparr>pullStatus := Some st\<rparr>"
| "setTaskStatus Branch st d = d\<lparr>branchStatus := Some st\<rparr>"
| "setTaskStatus Commit st d = d\<lparr>commitStatus := Some st\<rparr>"

fun setCursor :: "task_type \<Rightarrow> string \<Rightarrow> repo_data \<Rightarrow> repo_data" where
  "setCursor Pull c d = d\<lparr>lastPullCursor := Some c\<rparr>"
| "setCursor Branch c d = d\<lparr>lastBranchCursor := Some c\<rparr>"
| "setCursor Commit c d = d\<lparr>lastCommitCursor := Some c\<rparr>"

definition no_data :: repo_data where
  "no_data =
     \<lparr>repository = None, pullStatus = None, branchStatus = None, commitStatus = None,
      lastPullCursor = None, lastBranchCursor = None, lastCommitCursor = None\<rparr>"

text \<open>
  Modelled from the spec: the model class \<open>Subscription\<close> (\<open>models/subscription\<close>) with its
  \<open>set\<close>, \<open>update\<close>, \<open>save\<close> and \<open>getSingleInstallation\<close> is not among the sources. The spec
  describes the writes of the engine field by field (set the task's status, store the
  cursor, persist the count of synced repositories) over a map that may grow and from which
  nothing is removed: a write under \<open>repoSyncState.repos[id]\<close> changes the named property of
  that entry and leaves every other entry and property alone, and creates the entry when
  the map has none for \<open>id\<close>.
\<close>

fun upd_repo :: "nat \<Rightarrow> (repo_data \<Rightarrow> repo_data) \<Rightarrow> repositories \<Rightarrow> repositories" where
  "upd_repo k f [] = [(k, f no_data)]"
| "upd_repo k f ((k', d) # rs) =
     (if k = k' then (k', f d) # rs
      else if k < k' then (k, f no_data) # (k', d) # rs
      else (k', d) # upd_repo k f rs)"

text \<open>
  Modelled from the spec: \<open>Subscription.getSingleInstallation\<close> loads the stored row,
  "not found" being a valid empty result.
\<close>

definition getSingleInstallation :: "world \<Rightarrow> subscription option" where
  "getSingleInstallation w = db w"

text \<open>
  Modelled from the spec: \<open>subscription.save()\<close> persists the in-memory instance; the
  row is written where it still exists.
\<close>

definition save :: "subscription \<Rightarrow> world \<Rightarrow> world" where
  "save s w = w\<lparr>db := map_option (\<lambda>_. s) (db w)\<rparr>"

text \<open>
  Modelled from the spec: \<open>subscription.update\<close> sets the given properties on the instance
  and persists the column they belong to (\<open>repoSyncState\<close> or \<open>syncStatus\<close>).
\<close>

definition persist_repoSyncState :: "subscription \<Rightarrow> world \<Rightarrow> world" where
  "persist_repoSyncState s w =
     w\<lparr>db := map_option
         (\<lambda>row. row\<lparr>repos := repos s, numberOfSyncedRepos := numberOfSyncedRepos s\<rparr>) (db w)\<rparr>"

definition update_numberOfSyncedRepos :: "nat \<Rightarrow> subscription \<Rightarrow> world \<Rightarrow> subscription \<times> world" where
  "update_numberOfSyncedRepos n s w =
     (let s' = s\<lparr>numberOfSyncedRepos := Some n\<rparr> in (s', persist_repoSyncState s' w))"

definition update_repository :: "repository \<Rightarrow> subscription \<Rightarrow> world \<Rightarrow> subscription \<times> world" where
  "update_repository r s w =
     (let s' = s\<lparr>repos := upd_repo (repo_id r) (\<lambda>d. d\<lparr>repository := Some r\<rparr>) (repos s)\<rparr>
      in (s', persist_repoSyncState s' w))"

definition update_syncStatus :: "sync_status \<Rightarrow> subscription \<Rightarrow> world \<Rightarrow> subscription \<times> world" where
  "update_syncStatus st s w =
     (s\<lparr>syncStatus := st\<rparr>, w\<lparr>db := map_option (\<lambda>row. row\<lparr>syncStatus := st\<rparr>) (db w)\<rparr>)"

text \<open>Modelled from the spec: \<open>subscription.set\<close> changes the instance in memory only.\<close>

definition set_taskStatus :: "nat \<Rightarrow> task_type \<Rightarrow> task_status \<Rightarrow> subscription \<Rightarrow> subscription" where
  "set_taskStatus repositoryId task st s =
     s\<lparr>repos := upd_repo repositoryId (setTaskStatus task st) (repos s)\<rparr>"

definition set_cursor :: "nat \<Rightarrow> task_type \<Rightarrow> string \<Rightarrow> subscription \<Rightarrow> subscription" where
  "set_cursor repositoryId task c s =
     s\<lparr>repos := upd_repo repositoryId (setCursor task c) (repos s)\<rparr>"

subsection \<open>Task selection\<close>

definition fully_synced :: "repo_data \<Rightarrow> bool" where
  "fully_synced d =
     (pullStatus d = Some Complete \<and> branchStatus d = Some Complete
      \<and> commitStatus d = Some Complete)"

definition syncedRepos :: "repositories \<Rightarrow> nat list" where
  "syncedRepos rs =
     (let repoIds = map fst rs
      in filter (\<lambda>id. case map_of rs id of Some d \<Rightarrow> fully_synced d | None \<Rightarrow> False) repoIds)"

definition updateNumberOfReposSynced ::
  "repositories \<Rightarrow> subscription \<Rightarrow> world \<Rightarrow> subscription \<times> world" where
  "updateNumberOfReposSynced rs s w = update_numberOfSyncedRepos (length (syncedRepos rs)) s w"

text \<open>
  The comparator of \<open>sortedRepos\<close> reads \<open>.repository.updated_at\<close> of both its arguments.
  A sort of two or more entries passes every entry to the comparator, so an entry without
  a summary makes the read throw a \<open>TypeError\<close>; a sort of fewer than two entries never
  calls the comparator. \<open>Array.prototype.sort\<close> is stable, and a positive
  \<open>b.updated_at - a.updated_at\<close> puts \<open>b\<close> first.
\<close>

definition updated_at_TypeError :: js_error where
  "updated_at_TypeError =
     \<lparr>err_name = ''TypeError'',
      err_message = ''Cannot read property updated_at of undefined'',
      err_errors = None, err_ratelimit_reset = None\<rparr>"

definition sort_rank :: "nat \<times> repo_data \<Rightarrow> int" where
  "sort_rank entry = (case repository (snd entry) of Some r \<Rightarrow> - updated_at r | None \<Rightarrow> 0)"

definition sortedRepos :: "repositories \<Rightarrow> js_error + repositories" where
  "sortedRepos rs =
     (if 2 \<le> length rs \<and> list_ex (\<lambda>entry. repository (snd entry) = None) rs
      then Inl updated_at_TypeError
      else Inr (sort_key sort_rank rs))"

record next_task =
  nt_task :: task_type
  nt_repositoryId :: nat
  nt_repository :: "repository option"
  nt_cursor :: "string option"

text \<open>The \<open>for\<close> loop of \<open>getNextTask\<close> over the sorted entries.\<close>

fun getNextTask_loop :: "repositories \<Rightarrow> next_task option" where
  "getNextTask_loop [] = None"
| "getNextTask_loop ((repositoryId, repoData) # rest) =
     (case find (\<lambda>taskType. taskStatus repoData taskType \<noteq> Some Complete) taskTypes of
        None \<Rightarrow> getNextTask_loop rest
      | Some task \<Rightarrow>
          Some \<lparr>nt_task = task, nt_repositoryId = repositoryId,
                nt_repository = repository repoData, nt_cursor = getCursor repoData task\<rparr>)"

definition getNextTask ::
  "subscription \<Rightarrow> world \<Rightarrow> (js_error + next_task option) \<times> subscription \<times> world" where
  "getNextTask s w =
     (let rs = repos s;
          (s1, w1) = updateNumberOfReposSynced rs s w
      in case sortedRepos rs of
           Inl err \<Rightarrow> (Inl err, s1, w1)
         | Inr sorted_entries \<Rightarrow> (Inr (getNextTask_loop sorted_entries), s1, w1))"

subsection \<open>Progress update\<close>

text \<open>\<open>Number(process.env.LIMITER_PER_INSTALLATION) || 1000\<close>: \<open>NaN\<close> and \<open>0\<close> are falsy.\<close>

definition limiter_delay :: "env \<Rightarrow> int" where
  "limiter_delay e =
     (case LIMITER_PER_INSTALLATION e of
        None \<Rightarrow> 1000
      | Some n \<Rightarrow> if n = 0 then 1000 else n)"

text \<open>
  The block under \<open>job.data.startTime !== undefined\<close>: the duration goes to the
  \<open>full_sync\<close> histogram and into the log message.
\<close>

definition timeDiff :: "env \<Rightarrow> string \<Rightarrow> int option" where
  "timeDiff e st = map_option (\<lambda>t. now e - t) (Date_parse e st)"

definition report_complete :: "env \<Rightarrow> job \<Rightarrow> world \<Rightarrow> world" where
  "report_complete e j w =
     (case startTime (data j) of
        None \<Rightarrow> log (SyncComplete None) w
      | Some st \<Rightarrow>
          log (SyncComplete (Some (timeDiff e st)))
            (w\<lparr>full_sync := full_sync w @ [timeDiff e st]\<rparr>))"

text \<open>The \<open>try\<close>/\<open>catch\<close> around \<open>jiraClient.devinfo.migration.complete()\<close>.\<close>

definition notify_complete :: "env \<Rightarrow> world \<Rightarrow> world" where
  "notify_complete e w =
     (let w1 = w\<lparr>migration_complete_calls := Suc (migration_complete_calls w)\<rparr>
      in case migration_complete e of
           None \<Rightarrow> w1
         | Some err \<Rightarrow> log (WarnMigrationComplete err) w1)"

text \<open>
  \<open>updateJobStatus\<close>. The result is the in-memory instance at exit (\<open>None\<close> when none
  was loaded), the world, and the error thrown, if any.
\<close>

definition updateJobStatus ::
  "env \<Rightarrow> job \<Rightarrow> edge list \<Rightarrow> task_type \<Rightarrow> nat \<Rightarrow> world
     \<Rightarrow> subscription option \<times> world \<times> js_error option" where
  "updateJobStatus e j es task repositoryId w =
     (case getSingleInstallation w of
        None \<Rightarrow> (None, log OrgDeleted w, None)
      | Some subscription \<Rightarrow>
          (let status = (if length es > 0 then Pending else Complete);
               w1 = log (UpdatingJobStatus repositoryId task status) w;
               s1 = set_taskStatus repositoryId task status subscription
           in if length es > 0 then
                (let s2 = set_cursor repositoryId task (cursor (last es)) s1;
                     delay = limiter_delay e;
                     w2 = queue_add (data j)
                            \<lparr>add_attempts = Some 3, add_delay = Some delay,
                             add_removeOnComplete = removeOnComplete (opts j),
                             add_removeOnFail = removeOnFail (opts j)\<rparr> w1
                 in (Some s2, save s2 w2, None))
              else
                (case getNextTask s1 w1 of
                   (Inl err, s2, w2) \<Rightarrow> (Some s2, w2, Some err)
                 | (Inr None, s2, w2) \<Rightarrow>
                     (let s3 = s2\<lparr>syncStatus := COMPLETE\<rparr>;
                          w3 = report_complete e j w2;
                          w4 = notify_complete e w3
                      in (Some s3, save s3 w4, None))
                 | (Inr (Some nextTask), s2, w2) \<Rightarrow>
                     (let w3 = log SyncPending w2;
                          w4 = queue_add (data j)
                                 \<lparr>add_attempts = Some 3, add_delay = None,
                                  add_removeOnComplete = removeOnComplete (opts j),
                                  add_removeOnFail = removeOnFail (opts j)\<rparr> w3
                      in (Some s2, save s2 w4, None)))))"

subsection \<open>The job handler\<close>

text \<open>
  The \<open>catch\<close> block of \<open>processInstallation\<close>. \<open>Math.max(Date.now() - rateLimit * 1000, 0)\<close>
  is \<open>NaN\<close> when \<open>rateLimit\<close> is; \<open>if (delay)\<close> takes neither \<open>NaN\<close> nor \<open>0\<close>.
\<close>

definition rateLimit_delay :: "env \<Rightarrow> js_error \<Rightarrow> int option" where
  "rateLimit_delay e err =
     (let rateLimit = err_ratelimit_reset err
      in map_option (\<lambda>r. max (now e - r * 1000) 0) rateLimit)"

definition retry_opts :: "job \<Rightarrow> int \<Rightarrow> add_opts" where
  "retry_opts j delay =
     \<lparr>add_attempts = None, add_delay = Some delay,
      add_removeOnComplete = removeOnComplete (opts j),
      add_removeOnFail = removeOnFail (opts j)\<rparr>"

definition isNotFoundError :: "js_error \<Rightarrow> bool" where
  "isNotFoundError err =
     (case err_errors err of
        None \<Rightarrow> False
      | Some errors \<Rightarrow> length (filter (\<lambda>t. t = ''NOT_FOUND'') errors) \<noteq> 0)"

definition processInstallation_catch ::
  "env \<Rightarrow> job \<Rightarrow> subscription \<Rightarrow> task_type \<Rightarrow> nat \<Rightarrow> js_error \<Rightarrow> world
     \<Rightarrow> world \<times> js_error option" where
  "processInstallation_catch e j subscription task repositoryId err w =
     (let delay = rateLimit_delay e err
      in if delay \<noteq> None \<and> delay \<noteq> Some 0 then
           (case delay of
              Some d \<Rightarrow> (queue_add (data j) (retry_opts j d) (log (Delaying d) w), None)
            | None \<Rightarrow> (w, None))
         else if str_includes (String_of err) ''connect ETIMEDOUT'' then
           (queue_add (data j) (retry_opts j 5000) (log TimedOut w), None)
         else if str_includes (err_message err)
                   ''You have triggered an abuse detection mechanism'' then
           (queue_add (data j) (retry_opts j 60000) (log AbuseDetection w), None)
         else if isNotFoundError err then
           (let edgesLeft = [];
                (i, w1, r) = updateJobStatus e j edgesLeft task repositoryId
                               (log RepositoryDeleted w)
            in (w1, r))
         else (snd (update_syncStatus FAILED subscription w), Some err))"

text \<open>
  The \<open>try\<close> statement of \<open>processInstallation\<close>: the fetch with its fallback, the
  submission of the payload to Jira, the progress update, and the \<open>catch\<close> block for
  whatever any of them throws. Other writers get at the stored row while the fetch runs.
\<close>

definition processInstallation_try ::
  "env \<Rightarrow> job \<Rightarrow> subscription \<Rightarrow> task_type \<Rightarrow> nat \<Rightarrow> repository \<Rightarrow> string option \<Rightarrow> world
     \<Rightarrow> world \<times> js_error option" where
  "processInstallation_try e j subscription task repositoryId repo cursor0 w =
     (let (calls, result) = execute (processor e task repo cursor0);
          w1 = w\<lparr>fetched := fetched w @ calls, db := concurrent e (db w)\<rparr>
      in case result of
           Inl err \<Rightarrow> processInstallation_catch e j subscription task repositoryId err w1
         | Inr p \<Rightarrow>
             (case (case jiraPayload p of
                      None \<Rightarrow> None
                    | Some payload \<Rightarrow> jira_update e payload) of
                Some err \<Rightarrow> processInstallation_catch e j subscription task repositoryId err w1
              | None \<Rightarrow>
                  (case updateJobStatus e j (edges p) task repositoryId w1 of
                     (i, w2, Some err) \<Rightarrow>
                       processInstallation_catch e j subscription task repositoryId err w2
                   | (i, w2, None) \<Rightarrow> (w2, None))))"

text \<open>
  \<open>processInstallation\<close>: the world at exit, and the error the returned promise rejects
  with (\<open>None\<close> when it resolves). An error thrown before the \<open>try\<close> statement (by
  \<open>getNextTask\<close> or by the request for the repository) rejects the promise as it is.
  \<open>getJiraClient\<close> and \<open>getEnhancedGitHub\<close> build the two clients and are taken to return.
\<close>

definition processInstallation :: "env \<Rightarrow> job \<Rightarrow> world \<Rightarrow> world \<times> js_error option" where
  "processInstallation e j w0 =
     (let w = log StartingJob w0
      in case getSingleInstallation w of
           None \<Rightarrow> (w, None)
         | Some subscription \<Rightarrow>
             (case getNextTask subscription w of
                (Inl err, s1, w1) \<Rightarrow> (w1, Some err)
              | (Inr None, s1, w1) \<Rightarrow> (snd (update_syncStatus COMPLETE s1 w1), None)
              | (Inr (Some nextTask), s1, w1) \<Rightarrow>
                  (let (s2, w2) = update_syncStatus ACTIVE s1 w1;
                       task = nt_task nextTask;
                       repositoryId = nt_repositoryId nextTask;
                       cursor0 = nt_cursor nextTask
                   in case (case nt_repository nextTask of
                              Some r \<Rightarrow> Inr (r, s2, w2)
                            | None \<Rightarrow>
                                (case get_repository e repositoryId of
                                   Inl err \<Rightarrow> Inl err
                                 | Inr r \<Rightarrow>
                                     (let (s3, w3) = update_repository r s2 w2
                                      in Inr (r, s3, w3)))) of
                        Inl err \<Rightarrow> (w2, Some err)
                      | Inr (repo, s3, w3) \<Rightarrow>
                          processInstallation_try e j s3 task repositoryId repo cursor0
                            (log (StartingTask repositoryId task) w3))))"

subsection \<open>Reading the stored state\<close>

text \<open>\<open>repos[repositoryId][`${task}Status`]\<close> and \<open>repos[repositoryId][getCursorKey(task)]\<close>.\<close>

definition repo_taskStatus :: "subscription \<Rightarrow> nat \<Rightarrow> task_type \<Rightarrow> task_status option" where
  "repo_taskStatus s repositoryId task =
     (case map_of (repos s) repositoryId of None \<Rightarrow> None | Some d \<Rightarrow> taskStatus d task)"

definition repo_cursor :: "subscription \<Rightarrow> nat \<Rightarrow> task_type \<Rightarrow> string option" where
  "repo_cursor s repositoryId task =
     (case map_of (repos s) repositoryId of None \<Rightarrow> None | Some d \<Rightarrow> getCursor d task)"

text \<open>The repository ids that have an entry in the stored row.\<close>

definition repo_ids :: "subscription option \<Rightarrow> nat set" where
  "repo_ids row = (case row of None \<Rightarrow> {} | Some s \<Rightarrow> fst ` set (repos s))"

text \<open>The instance after \<open>updateNumberOfReposSynced\<close>.\<close>

definition counted :: "subscription \<Rightarrow> subscription" where
  "counted s = s\<lparr>numberOfSyncedRepos := Some (length (syncedRepos (repos s)))\<rparr>"

text \<open>
  The row \<open>updateJobStatus\<close> leaves in the store when it found the row \<open>s\<close> there
  (\<open>updateJobStatus_db\<close> below).
\<close>

definition row_after :: "subscription \<Rightarrow> edge list \<Rightarrow> task_type \<Rightarrow> nat \<Rightarrow> subscription" where
  "row_after s es task rid =
     (if es \<noteq> [] then set_cursor rid task (cursor (last es)) (set_taskStatus rid task Pending s)
      else (let c = counted (set_taskStatus rid task Complete s)
            in case sortedRepos (repos c) of
                 Inl err \<Rightarrow> c
               | Inr xs \<Rightarrow> (case getNextTask_loop xs of
                              None \<Rightarrow> c\<lparr>syncStatus := COMPLETE\<rparr>
                            | Some nt \<Rightarrow> c)))"


text \<open>
  Every task type of an entry has the status \<open>complete\<close>.
\<close>

definition all_complete :: "repo_data \<Rightarrow> bool" where
  "all_complete d = list_all (\<lambda>t. taskStatus d t = Some Complete) taskTypes"

subsection \<open>Concrete inputs\<close>

text \<open>Errors, pages and processors used to run the definitions on explicit inputs.\<close>

definition capacity_error :: js_error where
  "capacity_error =
     \<lparr>err_name = ''GraphqlError'', err_message = ''This query requests too many nodes'',
      err_errors = Some [''MAX_NODE_LIMIT_EXCEEDED''], err_ratelimit_reset = None\<rparr>"

definition server_error :: js_error where
  "server_error =
     \<lparr>err_name = ''HttpError'', err_message = ''Bad gateway'',
      err_errors = None, err_ratelimit_reset = None\<rparr>"

definition page_of_two :: page where
  "page_of_two = \<lparr>edges = [Edge ''c1'', Edge ''c2''], jiraPayload = None\<rparr>"

definition succeeds_at_5 :: "nat \<Rightarrow> js_error + page" where
  "succeeds_at_5 perPage = (if perPage = 5 then Inr page_of_two else Inl capacity_error)"

definition never_fits :: "nat \<Rightarrow> js_error + page" where
  "never_fits perPage = Inl capacity_error"

definition breaks_at_10 :: "nat \<Rightarrow> js_error + page" where
  "breaks_at_10 perPage = (if perPage = 10 then Inl server_error else Inl capacity_error)"

definition job0 :: job where
  "job0 =
     \<lparr>data = \<lparr>installationId = 7, jiraHost = ''https://acme.atlassian.net'',
              startTime = Some ''2020-06-01T00:00:00Z''\<rparr>,
      opts = \<lparr>removeOnComplete = Some True, removeOnFail = None\<rparr>\<rparr>"

definition app_repo :: repository where
  "app_repo = \<lparr>repo_id = 1, repo_name = ''app'', updated_at = 50\<rparr>"

definition lib_repo :: repository where
  "lib_repo = \<lparr>repo_id = 2, repo_name = ''lib'', updated_at = 70\<rparr>"

text \<open>One repository whose last open task is \<open>commit\<close>.\<close>

definition sub_last_task :: subscription where
  "sub_last_task =
     \<lparr>syncStatus = ACTIVE,
      repos = [(1, \<lparr>repository = Some app_repo, pullStatus = Some Complete,
                    branchStatus = Some Complete, commitStatus = Some Pending,
                    lastPullCursor = None, lastBranchCursor = None,
                    lastCommitCursor = Some ''c0''\<rparr>)],
      numberOfSyncedRepos = Some 0\<rparr>"

text \<open>Two repositories; after \<open>commit\<close> of the first, \<open>branch\<close> of the second is open.\<close>

definition sub_two_repos :: subscription where
  "sub_two_repos =
     \<lparr>syncStatus = PENDING,
      repos = [(1, \<lparr>repository = Some app_repo, pullStatus = Some Complete,
                    branchStatus = Some Complete, commitStatus = Some Pending,
                    lastPullCursor = None, lastBranchCursor = None,
                    lastCommitCursor = Some ''c0''\<rparr>),
               (2, \<lparr>repository = Some lib_repo, pullStatus = Some Complete,
                    branchStatus = Some Pending, commitStatus = None,
                    lastPullCursor = None, lastBranchCursor = Some ''b7'',
                    lastCommitCursor = None\<rparr>)],
      numberOfSyncedRepos = Some 0\<rparr>"

definition world_of :: "subscription \<Rightarrow> world" where
  "world_of s =
     \<lparr>db = Some s, queue = [], logs = [], full_sync = [], migration_complete_calls = 0,
      fetched = []\<rparr>"

text \<open>
  An environment at time \<open>t\<close> whose task processors all fail with \<open>err\<close>, where Jira
  rejects the migration-complete call and nobody else writes to the store.
\<close>

definition env_failing :: "int \<Rightarrow> js_error \<Rightarrow> env" where
  "env_failing t err =
     \<lparr>now = t, LIMITER_PER_INSTALLATION = None, Date_parse = (\<lambda>s. Some 400000),
      migration_complete = Some server_error, processor = (\<lambda>task r c perPage. Inl err),
      jira_update = (\<lambda>p. None), get_repository = (\<lambda>i. Inl server_error),
      concurrent = (\<lambda>row. row)\<rparr>"

text \<open>An error carrying the header \<open>x-ratelimit-reset\<close> with the given value in seconds.\<close>

definition rate_limited :: "int \<Rightarrow> js_error" where
  "rate_limited reset =
     \<lparr>err_name = ''HttpError'', err_message = ''API rate limit exceeded'',
      err_errors = None, err_ratelimit_reset = Some reset\<rparr>"

text \<open>
  Two repositories with every task complete; the first is an old record without a
  repository summary.
\<close>

definition sub_old_record :: subscription where
  "sub_old_record =
     \<lparr>syncStatus = ACTIVE,
      repos = [(1, \<lparr>repository = None, pullStatus = Some Complete,
                    branchStatus = Some Complete, commitStatus = Some Complete,
                    lastPullCursor = None, lastBranchCursor = None,
                    lastCommitCursor = None\<rparr>),
               (2, \<lparr>repository = Some lib_repo, pullStatus = Some Complete,
                    branchStatus = Some Complete, commitStatus = Some Complete,
                    lastPullCursor = None, lastBranchCursor = None,
                    lastCommitCursor = None\<rparr>)],
      numberOfSyncedRepos = Some 2\<rparr>"




definition world_deleted :: world where
  "world_deleted =
     \<lparr>db = None, queue = [], logs = [], full_sync = [], migration_complete_calls = 0,
      fetched = []\<rparr>"

section \<open>Properties\<close>

text \<open>The definitions to unfold when the engine is run on a concrete input.\<close>

lemmas engine_defs = processInstallation_def processInstallation_try_def processInstallation_catch_def
  getSingleInstallation_def getNextTask_def updateNumberOfReposSynced_def
  syncedRepos_def update_numberOfSyncedRepos_def persist_repoSyncState_def sortedRepos_def sort_rank_def
  update_syncStatus_def update_repository_def execute_def handleGitHubError_def 
  rateLimit_delay_def String_of_def isNotFoundError_def updateJobStatus_def log_def queue_add_def retry_opts_def
  set_taskStatus_def set_cursor_def save_def limiter_delay_def report_complete_def notify_complete_def timeDiff_def
  fully_synced_def no_data_def taskTypes_def ignoredErrorTypes_def repo_taskStatus_def repo_cursor_def Let_def

lemmas input_defs = job0_def app_repo_def lib_repo_def sub_last_task_def sub_two_repos_def world_of_def
  env_failing_def server_error_def capacity_error_def


subsection \<open>Page-size fallback\<close>

lemma handleGitHubError_iff: "handleGitHubError err \<longleftrightarrow> \<not> capacity_exceeded err"
  by (cases "err_errors err")
     (auto simp: handleGitHubError_def capacity_exceeded_def Let_def filter_empty_conv list_all_iff)

lemma execute_loop_absorbed:
  "\<forall>q\<in>set pre. \<exists>err. f q = Inl err \<and> capacity_exceeded err \<Longrightarrow>
   execute_loop f (pre @ rest) = (pre @ fst (execute_loop f rest), snd (execute_loop f rest))"
  by (induction pre) (auto simp: handleGitHubError_iff split: prod.splits)

lemma execute_loop_stop_err:
  "f p = Inl err \<Longrightarrow> \<not> capacity_exceeded err \<Longrightarrow> execute_loop f (p # post) = ([p], Inl err)"
  by (simp add: handleGitHubError_iff)

text \<open>
  C2. \<open>execute\<close> calls the page fetcher at the sizes 20, 10, 5, 1 in that order. Whenever
  the sizes before \<open>p\<close> all failed capacity-exceeded, a success at \<open>p\<close> is returned and any
  other error at \<open>p\<close> is thrown at once, the fetcher having been called on exactly the sizes
  up to \<open>p\<close>; when all four sizes fail capacity-exceeded the exhausted-fallback error is
  thrown; a fetcher failing capacity-exceeded at 20 and 10 and succeeding at 5 is called
  exactly three times, at 20, 10, 5, and the result of size 5 is returned.
\<close>

theorem execute_page_size_fallback:
  "([20, 10, 5, 1] = pre @ p # post
      \<and> (\<forall>q\<in>set pre. \<exists>err. f q = Inl err \<and> capacity_exceeded err)
      \<longrightarrow> (f p = Inr r \<longrightarrow> execute f = (pre @ [p], Inr r))
        \<and> (f p = Inl err \<and> \<not> capacity_exceeded err \<longrightarrow> execute f = (pre @ [p], Inl err)))
   \<and> ((\<forall>q\<in>set [20, 10, 5, 1]. \<exists>err. f q = Inl err \<and> capacity_exceeded err)
      \<longrightarrow> execute f = ([20, 10, 5, 1], Inl exhausted_error))
   \<and> (f 20 = Inl e1 \<and> capacity_exceeded e1 \<and> f 10 = Inl e2 \<and> capacity_exceeded e2
        \<and> f 5 = Inr r5
      \<longrightarrow> execute f = ([20, 10, 5], Inr r5))"
proof (intro conjI impI)
  assume h: "[20, 10, 5, 1] = pre @ p # post
    \<and> (\<forall>q\<in>set pre. \<exists>err. f q = Inl err \<and> capacity_exceeded err)"
  assume "f p = Inr r"
  then show "execute f = (pre @ [p], Inr r)"
    using h execute_loop_absorbed [of pre f "p # post"] by (simp add: execute_def)
next
  assume h: "[20, 10, 5, 1] = pre @ p # post
    \<and> (\<forall>q\<in>set pre. \<exists>err. f q = Inl err \<and> capacity_exceeded err)"
  assume "f p = Inl err \<and> \<not> capacity_exceeded err"
  then show "execute f = (pre @ [p], Inl err)"
    using h execute_loop_absorbed [of pre f "p # post"] execute_loop_stop_err [of f p err post]
    by (simp add: execute_def)
next
  assume "\<forall>q\<in>set [20, 10, 5, 1]. \<exists>err. f q = Inl err \<and> capacity_exceeded err"
  then show "execute f = ([20, 10, 5, 1], Inl exhausted_error)"
    using execute_loop_absorbed [of "[20, 10, 5, 1]" f "[]"] by (simp add: execute_def)
next
  assume "f 20 = Inl e1 \<and> capacity_exceeded e1 \<and> f 10 = Inl e2 \<and> capacity_exceeded e2
    \<and> f 5 = Inr r5"
  then show "execute f = ([20, 10, 5], Inr r5)"
    by (simp add: execute_def handleGitHubError_iff)
qed

lemma capacity_error_exceeded: "capacity_exceeded capacity_error"
  by (simp add: capacity_exceeded_def capacity_error_def ignoredErrorTypes_def)

lemma server_error_not_exceeded: "\<not> capacity_exceeded server_error"
  by (simp add: capacity_exceeded_def server_error_def)

theorem execute_page_size_fallback_witness:
  "execute succeeds_at_5 = ([20, 10, 5], Inr page_of_two)
   \<and> execute never_fits = ([20, 10, 5, 1], Inl exhausted_error)
   \<and> execute breaks_at_10 = ([20, 10], Inl server_error)"
proof (intro conjI)
  show "execute succeeds_at_5 = ([20, 10, 5], Inr page_of_two)"
    using execute_page_size_fallback
      [of "[20, 10]" 5 "[1]" succeeds_at_5 page_of_two server_error capacity_error
          capacity_error page_of_two]
      capacity_error_exceeded
    by (simp add: succeeds_at_5_def)
  show "execute never_fits = ([20, 10, 5, 1], Inl exhausted_error)"
    using execute_page_size_fallback
      [of "[]" 20 "[10, 5, 1]" never_fits page_of_two server_error capacity_error
          capacity_error page_of_two]
      capacity_error_exceeded
    by (simp add: never_fits_def)
  show "execute breaks_at_10 = ([20, 10], Inl server_error)"
    using execute_page_size_fallback
      [of "[20]" 10 "[5, 1]" breaks_at_10 page_of_two server_error capacity_error
          capacity_error page_of_two]
      capacity_error_exceeded server_error_not_exceeded
    by (simp add: breaks_at_10_def)
qed

subsection \<open>Task selection\<close>

text \<open>
  What \<open>getNextTask\<close> returns where the sort does not throw: entries are visited in
  descending order of \<open>updated_at\<close>, entries with equal \<open>updated_at\<close> in the order of the
  object's keys (ascending repository id); the first entry with a task that is not complete
  gives the first such task in catalog order with its stored cursor; no task is returned
  exactly when every task of every entry is complete.
\<close>

lemma getNextTask_result:
  "fst (getNextTask s w) =
     (case sortedRepos (repos s) of Inl err \<Rightarrow> Inl err | Inr xs \<Rightarrow> Inr (getNextTask_loop xs))"
  by (simp add: getNextTask_def Let_def split: prod.splits sum.splits)

lemma find_open_task_None:
  "find (\<lambda>taskType. taskStatus d taskType \<noteq> Some Complete) taskTypes = None \<longleftrightarrow> all_complete d"
  by (auto simp: find_None_iff all_complete_def list_all_iff)

lemma getNextTask_loop_None_iff:
  "getNextTask_loop xs = None \<longleftrightarrow> list_all (\<lambda>entry. all_complete (snd entry)) xs"
proof (induction xs)
  case Nil
  show ?case by simp
next
  case (Cons x xs)
  obtain k d where x: "x = (k, d)" by (cases x)
  show ?case
    using Cons find_open_task_None [of d]
    by (cases "find (\<lambda>taskType. taskStatus d taskType \<noteq> Some Complete) taskTypes")
       (simp_all add: x)
qed

lemma getNextTask_loop_Some:
  "getNextTask_loop xs = Some nt \<Longrightarrow>
   \<exists>pre d post. xs = pre @ (nt_repositoryId nt, d) # post
     \<and> list_all (\<lambda>entry. all_complete (snd entry)) pre
     \<and> find (\<lambda>taskType. taskStatus d taskType \<noteq> Some Complete) taskTypes = Some (nt_task nt)
     \<and> nt_repository nt = repository d
     \<and> nt_cursor nt = getCursor d (nt_task nt)"
proof (induction xs)
  case Nil
  then show ?case by simp
next
  case (Cons x xs)
  obtain k d where x: "x = (k, d)" by (cases x)
  show ?case
  proof (cases "find (\<lambda>taskType. taskStatus d taskType \<noteq> Some Complete) taskTypes")
    case None
    then have "getNextTask_loop xs = Some nt" using Cons.prems by (simp add: x)
    then obtain pre d' post where p: "xs = pre @ (nt_repositoryId nt, d') # post"
      "list_all (\<lambda>entry. all_complete (snd entry)) pre"
      "find (\<lambda>taskType. taskStatus d' taskType \<noteq> Some Complete) taskTypes = Some (nt_task nt)"
      "nt_repository nt = repository d'" "nt_cursor nt = getCursor d' (nt_task nt)"
      using Cons.IH by blast
    have "x # xs = (x # pre) @ (nt_repositoryId nt, d') # post" using p(1) by simp
    moreover have "list_all (\<lambda>entry. all_complete (snd entry)) (x # pre)"
      using p(2) None find_open_task_None [of d] by (simp add: x)
    ultimately show ?thesis using p(3,4,5) by blast
  next
    case (Some task)
    then have nt: "nt = \<lparr>nt_task = task, nt_repositoryId = k, nt_repository = repository d,
        nt_cursor = getCursor d task\<rparr>"
      using Cons.prems by (simp add: x)
    have "x # xs = [] @ (nt_repositoryId nt, d) # xs" by (simp add: x nt)
    then show ?thesis using Some nt by fastforce
  qed
qed

lemma sortedRepos_with_summaries:
  "list_all (\<lambda>entry. repository (snd entry) \<noteq> None) rs \<Longrightarrow>
   sortedRepos rs = Inr (sort_key sort_rank rs)"
  by (auto simp: sortedRepos_def list_all_iff list_ex_iff)

lemma sort_rank_summary:
  "repository (snd entry) = Some r \<Longrightarrow> sort_rank entry = - updated_at r"
  by (simp add: sort_rank_def)

lemma sortedRepos_order:
  assumes "sortedRepos rs = Inr xs"
  shows "sorted (map sort_rank xs) \<and> set xs = set rs
     \<and> filter (\<lambda>entry. sort_rank entry = k) xs = filter (\<lambda>entry. sort_rank entry = k) rs"
proof -
  have "xs = sort_key sort_rank rs"
    using assms by (auto simp: sortedRepos_def split: if_splits)
  then show ?thesis by (simp add: sort_key_stable)
qed

lemma getNextTask_none_iff:
  assumes "list_all (\<lambda>entry. repository (snd entry) \<noteq> None) (repos s)"
  shows "fst (getNextTask s w) = Inr None
     \<longleftrightarrow> list_all (\<lambda>entry. all_complete (snd entry)) (repos s)"
  using assms
  by (simp add: getNextTask_result sortedRepos_with_summaries getNextTask_loop_None_iff
        list_all_iff)

text \<open>
  C3. The state \<open>sub_old_record\<close> has two repositories with every task complete, so by
  the claim \<open>getNextTask\<close> returns no task. The first entry is an old record without a
  repository summary (the case \<open>processInstallation\<close> provides for with its request
  \<open>GET /repositories/:id\<close>); the comparator of \<open>sortedRepos\<close> reads \<open>updated_at\<close> of the
  missing summary and \<open>getNextTask\<close> throws a \<open>TypeError\<close> instead of returning.
\<close>

theorem getNextTask_old_record_TypeError:
  "list_all (\<lambda>entry. all_complete (snd entry)) (repos sub_old_record)
   \<and> fst (getNextTask sub_old_record (world_of sub_old_record)) = Inl updated_at_TypeError"
  by (simp add: engine_defs input_defs sub_old_record_def all_complete_def)

subsection \<open>The store and the progress update\<close>

lemmas world_ops = log_def queue_add_def save_def persist_repoSyncState_def notify_complete_def
  report_complete_def

lemma upd_repo_keys: "fst ` set (upd_repo k f rs) = insert k (fst ` set rs)"
  by (induction k f rs rule: upd_repo.induct) auto

lemma upd_repo_lookup_other: "k' \<noteq> k \<Longrightarrow> map_of (upd_repo k f rs) k' = map_of rs k'"
  by (induction k f rs rule: upd_repo.induct) auto

lemma upd_repo_lookup_same: "\<exists>d. map_of (upd_repo k f rs) k = Some (f d)"
  by (induction k f rs rule: upd_repo.induct) auto

lemma upd_repo_twice: "upd_repo k g (upd_repo k f rs) = upd_repo k (g \<circ> f) rs"
  by (induction k f rs rule: upd_repo.induct) auto

lemma getNextTask_eq:
  "getNextTask s w = (fst (getNextTask s w), counted s, persist_repoSyncState (counted s) w)"
  by (simp add: getNextTask_def updateNumberOfReposSynced_def update_numberOfSyncedRepos_def
        counted_def Let_def split: prod.splits sum.splits)

lemma updateJobStatus_deleted:
  "db w = None \<Longrightarrow> updateJobStatus e j es task rid w = (None, log OrgDeleted w, None)"
  by (simp add: updateJobStatus_def getSingleInstallation_def)

lemma updateJobStatus_more:
  assumes "db w = Some s" "es \<noteq> []"
  shows "updateJobStatus e j es task rid w =
    (Some (set_cursor rid task (cursor (last es)) (set_taskStatus rid task Pending s)),
     save (set_cursor rid task (cursor (last es)) (set_taskStatus rid task Pending s))
       (queue_add (data j)  \<lparr>add_attempts = Some 3, add_delay = Some (limiter_delay e),
                             add_removeOnComplete = removeOnComplete (opts j),
                             add_removeOnFail = removeOnFail (opts j)\<rparr>
          (log (UpdatingJobStatus rid task Pending) w)), None)"
  using assms by (simp add: updateJobStatus_def getSingleInstallation_def Let_def)

lemma updateJobStatus_done:
  assumes "db w = Some s"
  shows "updateJobStatus e j [] task rid w =
    (let s1 = set_taskStatus rid task Complete s;
         c = counted s1;
         w2 = persist_repoSyncState c (log (UpdatingJobStatus rid task Complete) w)
     in case fst (getNextTask s1 w) of
          Inl err \<Rightarrow> (Some c, w2, Some err)
        | Inr None \<Rightarrow> (Some (c\<lparr>syncStatus := COMPLETE\<rparr>),
             save (c\<lparr>syncStatus := COMPLETE\<rparr>) (notify_complete e (report_complete e j w2)), None)
        | Inr (Some nt) \<Rightarrow> (Some c,
             save c (queue_add (data j) \<lparr>add_attempts = Some 3, add_delay = None,
                             add_removeOnComplete = removeOnComplete (opts j),
                             add_removeOnFail = removeOnFail (opts j)\<rparr> (log SyncPending w2)), None))"
proof -
  let ?s1 = "set_taskStatus rid task Complete s"
  let ?w1 = "log (UpdatingJobStatus rid task Complete) w"
  have g: "getNextTask ?s1 ?w1 = (fst (getNextTask ?s1 w), counted ?s1, persist_repoSyncState (counted ?s1) ?w1)"
    using getNextTask_eq [of ?s1 ?w1] by (simp add: getNextTask_result)
  show ?thesis
    using assms
    by (simp add: updateJobStatus_def getSingleInstallation_def g Let_def
          split: sum.splits option.splits)
qed


lemma status_after_set:
  "repo_taskStatus (set_taskStatus rid task st s) rid task = Some st"
proof -
  obtain d where "map_of (upd_repo rid (setTaskStatus task st) (repos s)) rid
      = Some (setTaskStatus task st d)"
    using upd_repo_lookup_same by blast
  then show ?thesis
    by (cases task) (simp_all add: repo_taskStatus_def set_taskStatus_def)
qed

lemma status_after_set_cursor:
  "repo_taskStatus (set_cursor rid task c (set_taskStatus rid task st s)) rid task = Some st"
proof -
  obtain d where "map_of (upd_repo rid (setCursor task c \<circ> setTaskStatus task st) (repos s)) rid
      = Some ((setCursor task c \<circ> setTaskStatus task st) d)"
    using upd_repo_lookup_same by blast
  then show ?thesis
    by (cases task) (simp_all add: repo_taskStatus_def set_taskStatus_def set_cursor_def upd_repo_twice)
qed

lemma cursor_after_set_cursor:
  "repo_cursor (set_cursor rid task c s) rid task = Some c"
proof -
  obtain d where "map_of (upd_repo rid (setCursor task c) (repos s)) rid
      = Some (setCursor task c d)"
    using upd_repo_lookup_same by blast
  then show ?thesis
    by (cases task) (simp_all add: repo_cursor_def set_cursor_def)
qed

lemma repo_taskStatus_counted [simp]: "repo_taskStatus (counted s) = repo_taskStatus s"
  by (simp add: repo_taskStatus_def counted_def fun_eq_iff)

lemma repo_taskStatus_syncStatus [simp]:
  "repo_taskStatus (s\<lparr>syncStatus := st\<rparr>) = repo_taskStatus s"
  by (simp add: repo_taskStatus_def fun_eq_iff)


lemma syncStatus_counted [simp]: "syncStatus (counted s) = syncStatus s"
  by (simp add: counted_def)

lemma repos_counted [simp]: "repos (counted s) = repos s"
  by (simp add: counted_def)

lemma syncStatus_set_taskStatus [simp]: "syncStatus (set_taskStatus rid task st s) = syncStatus s"
  by (simp add: set_taskStatus_def)

lemma persist_fresh:
  "db w = Some s \<Longrightarrow> syncStatus c = syncStatus s \<Longrightarrow> db (persist_repoSyncState c w) = Some c"
  by (cases s, cases c) (simp add: persist_repoSyncState_def)

lemma db_log [simp]: "db (log l w) = db w"
  by (simp add: log_def)

lemma db_queue_add [simp]: "db (queue_add d os w) = db w"
  by (simp add: queue_add_def)

lemma db_report_complete [simp]: "db (report_complete e j w) = db w"
  by (simp add: report_complete_def log_def split: option.splits)

lemma db_notify_complete [simp]: "db (notify_complete e w) = db w"
  by (simp add: notify_complete_def log_def Let_def split: option.splits)

lemma db_save: "db w \<noteq> None \<Longrightarrow> db (save s w) = Some s"
  by (auto simp: save_def)

lemma updateJobStatus_db:
  assumes d: "db w = Some s"
  shows "db (fst (snd (updateJobStatus e j es task rid w))) = Some (row_after s es task rid)"
proof (cases "es = []")
  case True
  let ?c = "counted (set_taskStatus rid task Complete s)"
  have p: "db (persist_repoSyncState ?c (log (UpdatingJobStatus rid task Complete) w)) = Some ?c"
    using d by (simp add: persist_fresh)
  show ?thesis
    using True p
    by (simp add: updateJobStatus_done [OF d] row_after_def getNextTask_result Let_def db_save
          split: sum.splits option.splits)
next
  case False
  then show ?thesis
    using d by (simp add: updateJobStatus_more [OF d False] row_after_def db_save)
qed

lemma updateJobStatus_instance:
  assumes d: "db w = Some s"
  shows "fst (updateJobStatus e j es task rid w) = Some (row_after s es task rid)"
proof (cases "es = []")
  case True
  then show ?thesis
    by (simp add: updateJobStatus_done [OF d] row_after_def getNextTask_result Let_def
          split: sum.splits option.splits)
next
  case False
  then show ?thesis
    by (simp add: updateJobStatus_more [OF d False] row_after_def)
qed

lemma row_after_status:
  "repo_taskStatus (row_after s es task rid) rid task
     = Some (if es \<noteq> [] then Pending else Complete)"
  by (simp add: row_after_def Let_def status_after_set status_after_set_cursor
        split: sum.splits option.splits)

lemma row_after_cursor:
  "es \<noteq> [] \<Longrightarrow> repo_cursor (row_after s es task rid) rid task = Some (cursor (last es))"
  by (simp add: row_after_def cursor_after_set_cursor)


text \<open>
  C6. Whenever the installation still exists, \<open>updateJobStatus\<close> leaves the executed
  task's status \<open>pending\<close> when \<open>edges\<close> is non-empty and \<open>complete\<close> otherwise; when
  \<open>edges\<close> is non-empty it stores the last edge's cursor as the task's cursor, returns
  without error and adds one job with the same job data, 3 attempts, the delay
  \<open>Number(process.env.LIMITER_PER_INSTALLATION) || 1000\<close> (1000 when the variable is not
  a number, the configured value when it is a number other than 0) and the triggering job's
  \<open>removeOnComplete\<close>/\<open>removeOnFail\<close>.
\<close>

theorem updateJobStatus_status_cursor_requeue:
  "db w = Some s \<Longrightarrow>
   (case updateJobStatus e j es task rid w of
      (i, w', r) \<Rightarrow>
        (\<exists>row. db w' = Some row
           \<and> repo_taskStatus row rid task = Some (if es \<noteq> [] then Pending else Complete)
           \<and> (es \<noteq> [] \<longrightarrow> repo_cursor row rid task = Some (cursor (last es))))
        \<and> (es \<noteq> [] \<longrightarrow>
              r = None
              \<and> queue w' = queue w @
                  [(data j, \<lparr>add_attempts = Some 3, add_delay = Some (limiter_delay e),
                             add_removeOnComplete = removeOnComplete (opts j),
                             add_removeOnFail = removeOnFail (opts j)\<rparr>)]))
   \<and> (LIMITER_PER_INSTALLATION e = None \<longrightarrow> limiter_delay e = 1000)
   \<and> (LIMITER_PER_INSTALLATION e = Some n \<and> n \<noteq> 0 \<longrightarrow> limiter_delay e = n)"
proof -
  assume d: "db w = Some s"
  obtain i w' r where u: "updateJobStatus e j es task rid w = (i, w', r)"
    by (cases "updateJobStatus e j es task rid w") auto
  have row: "db w' = Some (row_after s es task rid)"
    using updateJobStatus_db [OF d, of e j es task rid] u by simp
  have more: "es \<noteq> [] \<longrightarrow> r = None
      \<and> queue w' = queue w @
                  [(data j, \<lparr>add_attempts = Some 3, add_delay = Some (limiter_delay e),
                             add_removeOnComplete = removeOnComplete (opts j),
                             add_removeOnFail = removeOnFail (opts j)\<rparr>)]"
  proof
    assume ne: "es \<noteq> []"
    show "r = None
      \<and> queue w' = queue w @
                  [(data j, \<lparr>add_attempts = Some 3, add_delay = Some (limiter_delay e),
                             add_removeOnComplete = removeOnComplete (opts j),
                             add_removeOnFail = removeOnFail (opts j)\<rparr>)]"
      using u updateJobStatus_more [OF d ne, of e j task rid]
      by (auto simp: save_def queue_add_def log_def)
  qed
  have lim: "(LIMITER_PER_INSTALLATION e = None \<longrightarrow> limiter_delay e = 1000)
     \<and> (LIMITER_PER_INSTALLATION e = Some n \<and> n \<noteq> 0 \<longrightarrow> limiter_delay e = n)"
    by (simp add: limiter_delay_def)
  show ?thesis
    using row more lim row_after_status [of s es task rid] row_after_cursor [of es s task rid]
    by (simp add: u)
qed

theorem updateJobStatus_status_cursor_requeue_witness:
  "(case updateJobStatus (env_failing 1000000 server_error) job0 [Edge ''c1'', Edge ''c2''] Commit 1
           (world_of sub_last_task) of
      (i, w', r) \<Rightarrow>
        r = None
        \<and> map_option (\<lambda>row. (repo_taskStatus row 1 Commit, repo_cursor row 1 Commit)) (db w')
            = Some (Some Pending, Some ''c2'')
        \<and> queue w' = [(data job0, \<lparr>add_attempts = Some 3, add_delay = Some 1000,
                                     add_removeOnComplete = Some True, add_removeOnFail = None\<rparr>)])
   \<and> limiter_delay (env_failing 1000000 server_error) = 1000"
proof -
  have d: "db (world_of sub_last_task) = Some sub_last_task" by (simp add: world_of_def)
  have l: "LIMITER_PER_INSTALLATION (env_failing 1000000 server_error) = None"
    by (simp add: env_failing_def)
  have q: "queue (world_of sub_last_task) = []" by (simp add: world_of_def)
  have j: "removeOnComplete (opts job0) = Some True \<and> removeOnFail (opts job0) = None"
    by (simp add: job0_def)
  show ?thesis
    using updateJobStatus_status_cursor_requeue [OF d, where e = "env_failing 1000000 server_error"
        and j = job0 and es = "[Edge ''c1'', Edge ''c2'']" and task = Commit and rid = 1 and n = 5]
      l q j
    by (auto split: prod.splits)
qed

text \<open>
  C9. \<open>updateJobStatus\<close> first loads the stored row. When there is none it returns
  without error and changes nothing but the log. Otherwise, whether it returns or throws, the
  row in the store when the function is left is the instance in memory, and it is the loaded
  row with every mutation the function made: with non-empty edges the task's status
  \<open>pending\<close> and the last edge's cursor; with empty edges the task's status \<open>complete\<close>,
  the refreshed count of synced repositories and, when no task remains, \<open>syncStatus\<close>
  \<open>COMPLETE\<close>.
\<close>

theorem updateJobStatus_persists:
  "(db w = None \<longrightarrow> updateJobStatus e j es task rid w = (None, log OrgDeleted w, None))
   \<and> (db w = Some s \<longrightarrow>
        (case updateJobStatus e j es task rid w of
           (i, w', r) \<Rightarrow>
             i = db w'
             \<and> (es \<noteq> [] \<longrightarrow>
                  db w' = Some (set_cursor rid task (cursor (last es))
                                 (set_taskStatus rid task Pending s)))
             \<and> (es = [] \<longrightarrow>
                  db w' = Some
                    (case fst (getNextTask (set_taskStatus rid task Complete s) w) of
                       Inl err' \<Rightarrow> counted (set_taskStatus rid task Complete s)
                     | Inr None \<Rightarrow>
                         (counted (set_taskStatus rid task Complete s))\<lparr>syncStatus := COMPLETE\<rparr>
                     | Inr (Some nt) \<Rightarrow> counted (set_taskStatus rid task Complete s)))
             \<and> (\<exists>row. db w' = Some row
                   \<and> repo_taskStatus row rid task = Some (if es \<noteq> [] then Pending else Complete)
                   \<and> (es \<noteq> [] \<longrightarrow> repo_cursor row rid task = Some (cursor (last es))))))"
proof (intro conjI impI)
  assume "db w = None"
  then show "updateJobStatus e j es task rid w = (None, log OrgDeleted w, None)"
    by (rule updateJobStatus_deleted)
next
  assume d: "db w = Some s"
  obtain i w' r where u: "updateJobStatus e j es task rid w = (i, w', r)"
    by (cases "updateJobStatus e j es task rid w") auto
  have row: "db w' = Some (row_after s es task rid)"
    using updateJobStatus_db [OF d, of e j es task rid] u by simp
  have inst: "i = Some (row_after s es task rid)"
    using updateJobStatus_instance [OF d, of e j es task rid] u by simp
  have more: "es \<noteq> [] \<longrightarrow>
      row_after s es task rid
        = set_cursor rid task (cursor (last es)) (set_taskStatus rid task Pending s)"
    by (simp add: row_after_def)
  have fin: "es = [] \<longrightarrow>
      row_after s es task rid
        = (case fst (getNextTask (set_taskStatus rid task Complete s) w) of
             Inl err' \<Rightarrow> counted (set_taskStatus rid task Complete s)
           | Inr None \<Rightarrow>
               (counted (set_taskStatus rid task Complete s))\<lparr>syncStatus := COMPLETE\<rparr>
           | Inr (Some nt) \<Rightarrow> counted (set_taskStatus rid task Complete s))"
    by (simp add: row_after_def getNextTask_result Let_def split: sum.splits option.splits)
  show "case updateJobStatus e j es task rid w of
           (i, w', r) \<Rightarrow>
             i = db w'
             \<and> (es \<noteq> [] \<longrightarrow>
                  db w' = Some (set_cursor rid task (cursor (last es))
                                 (set_taskStatus rid task Pending s)))
             \<and> (es = [] \<longrightarrow>
                  db w' = Some
                    (case fst (getNextTask (set_taskStatus rid task Complete s) w) of
                       Inl err' \<Rightarrow> counted (set_taskStatus rid task Complete s)
                     | Inr None \<Rightarrow>
                         (counted (set_taskStatus rid task Complete s))\<lparr>syncStatus := COMPLETE\<rparr>
                     | Inr (Some nt) \<Rightarrow> counted (set_taskStatus rid task Complete s)))
             \<and> (\<exists>row. db w' = Some row
                   \<and> repo_taskStatus row rid task = Some (if es \<noteq> [] then Pending else Complete)
                   \<and> (es \<noteq> [] \<longrightarrow> repo_cursor row rid task = Some (cursor (last es))))"
    unfolding u
    using row inst more fin row_after_status [of s es task rid]
      row_after_cursor [of es s task rid]
    by simp
qed

theorem updateJobStatus_persists_witness:
  "updateJobStatus (env_failing 1000000 server_error) job0 [] Commit 1 world_deleted
     = (None, log OrgDeleted world_deleted, None)
   \<and> (case updateJobStatus (env_failing 1000000 server_error) job0 [Edge ''c1''] Commit 1
            (world_of sub_last_task) of
        (i, w', r) \<Rightarrow>
          i = db w'
          \<and> map_option (\<lambda>row. (repo_taskStatus row 1 Commit, repo_cursor row 1 Commit)) (db w')
              = Some (Some Pending, Some ''c1''))
   \<and> (case updateJobStatus (env_failing 1000000 server_error) job0 [] Commit 1
            (world_of sub_last_task) of
        (i, w', r) \<Rightarrow>
          i = db w'
          \<and> map_option (\<lambda>row. (repo_taskStatus row 1 Commit, syncStatus row,
                                 numberOfSyncedRepos row)) (db w')
              = Some (Some Complete, COMPLETE, Some 1))"
proof -
  let ?e = "env_failing 1000000 server_error"
  have d: "db (world_of sub_last_task) = Some sub_last_task" by (simp add: world_of_def)
  have n: "db world_deleted = None" by (simp add: world_deleted_def)
  have a: "set_cursor 1 Commit (cursor (last [Edge ''c1'']))
             (set_taskStatus 1 Commit Pending sub_last_task)
      = sub_last_task\<lparr>repos := [(1, \<lparr>repository = Some app_repo, pullStatus = Some Complete,
                    branchStatus = Some Complete, commitStatus = Some Pending,
                    lastPullCursor = None, lastBranchCursor = None,
                    lastCommitCursor = Some ''c1''\<rparr>)]\<rparr>"
    by (simp add: set_cursor_def set_taskStatus_def sub_last_task_def)
  have b: "(case fst (getNextTask (set_taskStatus 1 Commit Complete sub_last_task)
                        (world_of sub_last_task)) of
              Inl err' \<Rightarrow> counted (set_taskStatus 1 Commit Complete sub_last_task)
            | Inr None \<Rightarrow>
                (counted (set_taskStatus 1 Commit Complete sub_last_task))\<lparr>syncStatus := COMPLETE\<rparr>
            | Inr (Some nt) \<Rightarrow> counted (set_taskStatus 1 Commit Complete sub_last_task))
      = \<lparr>syncStatus = COMPLETE,
         repos = [(1, \<lparr>repository = Some app_repo, pullStatus = Some Complete,
                    branchStatus = Some Complete, commitStatus = Some Complete,
                    lastPullCursor = None, lastBranchCursor = None,
                    lastCommitCursor = Some ''c0''\<rparr>)],
         numberOfSyncedRepos = Some 1\<rparr>"
    by (simp add: engine_defs input_defs counted_def)
  show ?thesis
    using updateJobStatus_persists [where w = world_deleted and e = ?e and j = job0
        and es = "[]" and task = Commit and rid = 1 and s = sub_last_task]
      updateJobStatus_persists [where w = "world_of sub_last_task" and e = ?e and j = job0
        and es = "[Edge ''c1'']" and task = Commit and rid = 1 and s = sub_last_task]
      updateJobStatus_persists [where w = "world_of sub_last_task" and e = ?e and j = job0
        and es = "[]" and task = Commit and rid = 1 and s = sub_last_task]
      d n a b
    by (auto simp: repo_taskStatus_def repo_cursor_def sub_last_task_def split: prod.splits)
qed

text \<open>
  C4, as amended. \<open>updateJobStatus\<close> with empty edges on an installation that still
  exists: when \<open>getNextTask\<close> finds another task, a job with the same data, 3 attempts and
  no delay is added, nothing is sent to Jira or to the histogram, and \<open>syncStatus\<close> is left
  as it was loaded (\<open>processInstallation\<close> is what sets it to \<open>ACTIVE\<close>, before the task
  runs); when no task remains, \<open>syncStatus\<close> becomes \<open>COMPLETE\<close>, no job is added, the
  migration-complete call is made once and its failure is logged and not raised, and the
  duration since \<open>startTime\<close> goes to the histogram when the job carries one.
\<close>

theorem updateJobStatus_task_completed:
  "db w = Some s \<Longrightarrow>
   (case updateJobStatus e j [] task rid w of
      (i, w', r) \<Rightarrow>
        (fst (getNextTask (set_taskStatus rid task Complete s) w) = Inr (Some nt) \<longrightarrow>
           r = None
           \<and> map_option syncStatus (db w') = Some (syncStatus s)
           \<and> queue w' = queue w @
                 [(data j, \<lparr>add_attempts = Some 3, add_delay = None,
                            add_removeOnComplete = removeOnComplete (opts j),
                            add_removeOnFail = removeOnFail (opts j)\<rparr>)]
           \<and> migration_complete_calls w' = migration_complete_calls w
           \<and> full_sync w' = full_sync w)
        \<and> (fst (getNextTask (set_taskStatus rid task Complete s) w) = Inr None \<longrightarrow>
           r = None
           \<and> map_option syncStatus (db w') = Some COMPLETE
           \<and> queue w' = queue w
           \<and> migration_complete_calls w' = Suc (migration_complete_calls w)
           \<and> (migration_complete e = Some err \<longrightarrow> WarnMigrationComplete err \<in> set (logs w'))
           \<and> full_sync w' = full_sync w @
                 (case startTime (data j) of None \<Rightarrow> [] | Some st \<Rightarrow> [timeDiff e st])))"
proof -
  assume d: "db w = Some s"
  obtain i w' r where u: "updateJobStatus e j [] task rid w = (i, w', r)"
    by (cases "updateJobStatus e j [] task rid w") auto
  have row: "db w' = Some (row_after s [] task rid)"
    using updateJobStatus_db [OF d, of e j "[]" task rid] u by simp
  have a: "fst (getNextTask (set_taskStatus rid task Complete s) w) = Inr (Some nt) \<longrightarrow>
           r = None
           \<and> map_option syncStatus (db w') = Some (syncStatus s)
           \<and> queue w' = queue w @
                 [(data j, \<lparr>add_attempts = Some 3, add_delay = None,
                            add_removeOnComplete = removeOnComplete (opts j),
                            add_removeOnFail = removeOnFail (opts j)\<rparr>)]
           \<and> migration_complete_calls w' = migration_complete_calls w
           \<and> full_sync w' = full_sync w"
  proof
    assume g: "fst (getNextTask (set_taskStatus rid task Complete s) w) = Inr (Some nt)"
    have "syncStatus (row_after s [] task rid) = syncStatus s"
      using g by (simp add: row_after_def getNextTask_result Let_def split: sum.splits)
    moreover have "r = None \<and> queue w' = queue w @
                 [(data j, \<lparr>add_attempts = Some 3, add_delay = None,
                            add_removeOnComplete = removeOnComplete (opts j),
                            add_removeOnFail = removeOnFail (opts j)\<rparr>)]
           \<and> migration_complete_calls w' = migration_complete_calls w
           \<and> full_sync w' = full_sync w"
      using u g by (auto simp: updateJobStatus_done [OF d] Let_def world_ops)
    ultimately show "r = None
           \<and> map_option syncStatus (db w') = Some (syncStatus s)
           \<and> queue w' = queue w @
                 [(data j, \<lparr>add_attempts = Some 3, add_delay = None,
                            add_removeOnComplete = removeOnComplete (opts j),
                            add_removeOnFail = removeOnFail (opts j)\<rparr>)]
           \<and> migration_complete_calls w' = migration_complete_calls w
           \<and> full_sync w' = full_sync w"
      using row by simp
  qed
  have b: "fst (getNextTask (set_taskStatus rid task Complete s) w) = Inr None \<longrightarrow>
           r = None
           \<and> map_option syncStatus (db w') = Some COMPLETE
           \<and> queue w' = queue w
           \<and> migration_complete_calls w' = Suc (migration_complete_calls w)
           \<and> (migration_complete e = Some err \<longrightarrow> WarnMigrationComplete err \<in> set (logs w'))
           \<and> full_sync w' = full_sync w @
                 (case startTime (data j) of None \<Rightarrow> [] | Some st \<Rightarrow> [timeDiff e st])"
  proof
    assume g: "fst (getNextTask (set_taskStatus rid task Complete s) w) = Inr None"
    have "syncStatus (row_after s [] task rid) = COMPLETE"
      using g by (simp add: row_after_def getNextTask_result Let_def split: sum.splits)
    moreover have "r = None \<and> queue w' = queue w
           \<and> migration_complete_calls w' = Suc (migration_complete_calls w)
           \<and> (migration_complete e = Some err \<longrightarrow> WarnMigrationComplete err \<in> set (logs w'))
           \<and> full_sync w' = full_sync w @
                 (case startTime (data j) of None \<Rightarrow> [] | Some st \<Rightarrow> [timeDiff e st])"
      using u g
      by (auto simp: updateJobStatus_done [OF d] Let_def world_ops split: option.splits)
    ultimately show "r = None
           \<and> map_option syncStatus (db w') = Some COMPLETE
           \<and> queue w' = queue w
           \<and> migration_complete_calls w' = Suc (migration_complete_calls w)
           \<and> (migration_complete e = Some err \<longrightarrow> WarnMigrationComplete err \<in> set (logs w'))
           \<and> full_sync w' = full_sync w @
                 (case startTime (data j) of None \<Rightarrow> [] | Some st \<Rightarrow> [timeDiff e st])"
      using row by simp
  qed
  show ?thesis using a b by (simp add: u)
qed


theorem updateJobStatus_task_completed_witness:
  "(case updateJobStatus (env_failing 1000000 server_error) job0 [] Commit 1 (world_of sub_two_repos) of
      (i, w', r) \<Rightarrow>
        r = None \<and> map_option syncStatus (db w') = Some PENDING
        \<and> queue w' = [(data job0, \<lparr>add_attempts = Some 3, add_delay = None,
                                     add_removeOnComplete = Some True, add_removeOnFail = None\<rparr>)]
        \<and> migration_complete_calls w' = 0 \<and> full_sync w' = [])
   \<and> (case updateJobStatus (env_failing 1000000 server_error) job0 [] Commit 1 (world_of sub_last_task) of
      (i, w', r) \<Rightarrow>
        r = None \<and> map_option syncStatus (db w') = Some COMPLETE \<and> queue w' = []
        \<and> migration_complete_calls w' = 1 \<and> full_sync w' = [Some 600000]
        \<and> WarnMigrationComplete server_error \<in> set (logs w'))"
proof -
  have d2: "db (world_of sub_two_repos) = Some sub_two_repos" by (simp add: world_of_def)
  have d1: "db (world_of sub_last_task) = Some sub_last_task" by (simp add: world_of_def)
  have g2: "fst (getNextTask (set_taskStatus 1 Commit Complete sub_two_repos) (world_of sub_two_repos))
     = Inr (Some \<lparr>nt_task = Branch, nt_repositoryId = 2, nt_repository = Some lib_repo,
                  nt_cursor = Some ''b7''\<rparr>)"
    by (simp add: engine_defs input_defs)
  have g1: "fst (getNextTask (set_taskStatus 1 Commit Complete sub_last_task) (world_of sub_last_task))
     = Inr None"
    by (simp add: engine_defs input_defs)
  have m: "migration_complete (env_failing 1000000 server_error) = Some server_error"
    by (simp add: env_failing_def)
  have t: "timeDiff (env_failing 1000000 server_error) ''2020-06-01T00:00:00Z'' = Some 600000"
    by (simp add: timeDiff_def env_failing_def)
  have q: "queue (world_of sub_two_repos) = [] \<and> queue (world_of sub_last_task) = []
     \<and> migration_complete_calls (world_of sub_two_repos) = 0
     \<and> migration_complete_calls (world_of sub_last_task) = 0
     \<and> full_sync (world_of sub_two_repos) = [] \<and> full_sync (world_of sub_last_task) = []
     \<and> syncStatus sub_two_repos = PENDING"
    by (simp add: world_of_def sub_two_repos_def)
  have j: "startTime (data job0) = Some ''2020-06-01T00:00:00Z''
     \<and> removeOnComplete (opts job0) = Some True \<and> removeOnFail (opts job0) = None"
    by (simp add: job0_def)
  show ?thesis
    using updateJobStatus_task_completed [OF d2, where e = "env_failing 1000000 server_error"
        and j = job0 and task = Commit and rid = 1 and err = server_error
        and nt = "\<lparr>nt_task = Branch, nt_repositoryId = 2, nt_repository = Some lib_repo,
                  nt_cursor = Some ''b7''\<rparr>"]
      updateJobStatus_task_completed [OF d1, where e = "env_failing 1000000 server_error"
        and j = job0 and task = Commit and rid = 1 and err = server_error
        and nt = "\<lparr>nt_task = Branch, nt_repositoryId = 2, nt_repository = Some lib_repo,
                  nt_cursor = Some ''b7''\<rparr>"]
      g1 g2 m t q j
    by (auto split: prod.splits)
qed

text \<open>
  The claim C4 as stated fails: the stored row has \<open>syncStatus = PENDING\<close>, the task
  \<open>commit\<close> of repository 1 completes and \<open>branch\<close> of repository 2 is still open, and
  \<open>updateJobStatus\<close> leaves \<open>syncStatus\<close> at \<open>PENDING\<close>, not \<open>ACTIVE\<close>.
\<close>

theorem updateJobStatus_not_set_active_counterexample:
  "fst (getNextTask (set_taskStatus 1 Commit Complete sub_two_repos) (world_of sub_two_repos))
     = Inr (Some \<lparr>nt_task = Branch, nt_repositoryId = 2, nt_repository = Some lib_repo,
                  nt_cursor = Some ''b7''\<rparr>)
   \<and> map_option syncStatus
        (db (fst (snd (updateJobStatus (env_failing 1000000 server_error) job0 [] Commit 1
                         (world_of sub_two_repos))))) = Some PENDING"
  by (simp add: engine_defs input_defs)

lemma setTaskStatus_twice: "setTaskStatus task st \<circ> setTaskStatus task st = setTaskStatus task st"
  by (cases task) (simp_all add: fun_eq_iff)

lemma set_taskStatus_again:
  "set_taskStatus rid task st ((counted (set_taskStatus rid task st s))\<lparr>syncStatus := x\<rparr>)
     = (set_taskStatus rid task st s)
         \<lparr>numberOfSyncedRepos := Some (length (syncedRepos (repos (set_taskStatus rid task st s)))),
          syncStatus := x\<rparr>"
  by (simp add: set_taskStatus_def counted_def upd_repo_twice setTaskStatus_twice)

lemma row_after_again:
  "row_after (row_after s [] task rid) [] task rid = row_after s [] task rid"
proof -
  let ?s1 = "set_taskStatus rid task Complete s"
  have r: "repos (set_taskStatus rid task Complete (counted ?s1)) = repos ?s1"
    by (simp add: set_taskStatus_def counted_def upd_repo_twice setTaskStatus_twice)
  have c1: "counted (set_taskStatus rid task Complete (counted ?s1)) = counted ?s1"
    by (simp add: set_taskStatus_def counted_def upd_repo_twice setTaskStatus_twice)
  have c2: "counted (set_taskStatus rid task Complete ((counted ?s1)\<lparr>syncStatus := COMPLETE\<rparr>))
      = (counted ?s1)\<lparr>syncStatus := COMPLETE\<rparr>"
    by (simp add: set_taskStatus_def counted_def upd_repo_twice setTaskStatus_twice)
  have again: "row_after (counted ?s1) [] task rid = row_after s [] task rid"
    by (simp add: row_after_def Let_def c1)
  show ?thesis
  proof (cases "sortedRepos (repos ?s1)")
    case (Inl err)
    then have "row_after s [] task rid = counted ?s1"
      by (simp add: row_after_def Let_def)
    then show ?thesis using again by simp
  next
    case (Inr xs)
    show ?thesis
    proof (cases "getNextTask_loop xs")
      case None
      then have "row_after s [] task rid = (counted ?s1)\<lparr>syncStatus := COMPLETE\<rparr>"
        using Inr by (simp add: row_after_def Let_def)
      then show ?thesis
        using Inr None by (simp add: row_after_def [of "(counted ?s1)\<lparr>syncStatus := COMPLETE\<rparr>"] Let_def c2)
    next
      case (Some nt)
      then have "row_after s [] task rid = counted ?s1"
        using Inr by (simp add: row_after_def Let_def)
      then show ?thesis using again by simp
    qed
  qed
qed

lemma upd_repo_noop:
  "sorted (map fst rs) \<Longrightarrow> map_of rs k = Some d \<Longrightarrow> f d = d \<Longrightarrow> upd_repo k f rs = rs"
proof (induction k f rs rule: upd_repo.induct)
  case (1 k f)
  then show ?case by simp
next
  case (2 k f k' d' rs)
  show ?case
  proof (cases "k = k'")
    case True
    with 2 show ?thesis by simp
  next
    case False
    have m: "map_of rs k = Some d" using 2 False by simp
    then have "k \<in> fst ` set rs" by (metis map_of_eq_None_iff option.distinct(1))
    then have "k' \<le> k" using "2.prems"(1) by auto
    with False have "\<not> k < k'" by simp
    with 2 False m show ?thesis by simp
  qed
qed

lemma setTaskStatus_noop: "taskStatus d task = Some st \<Longrightarrow> setTaskStatus task st d = d"
  by (cases task) simp_all

lemma repos_row_after_noop:
  assumes "repo_taskStatus s rid task = Some Complete" "wf_repos (repos s)"
  shows "repos (row_after s [] task rid) = repos s"
proof -
  obtain d where m: "map_of (repos s) rid = Some d" and t: "taskStatus d task = Some Complete"
    using assms(1) by (auto simp: repo_taskStatus_def split: option.splits)
  have "upd_repo rid (setTaskStatus task Complete) (repos s) = repos s"
    using assms(2) m t by (simp add: upd_repo_noop setTaskStatus_noop wf_repos_def)
  then show ?thesis
    by (simp add: row_after_def Let_def set_taskStatus_def split: sum.splits option.splits)
qed

lemma syncStatus_row_after:
  "syncStatus (row_after s es task rid) = ACTIVE \<Longrightarrow> syncStatus s = ACTIVE"
  by (simp add: row_after_def Let_def set_cursor_def split: if_splits sum.splits option.splits)

text \<open>
  C10. Running \<open>updateJobStatus\<close> a second time with empty edges for the same task
  leaves the stored row exactly as the first run left it: the task's status is \<open>complete\<close>
  after both, \<open>syncStatus\<close> is \<open>ACTIVE\<close> afterwards only if it was \<open>ACTIVE\<close> before (so
  \<open>COMPLETE\<close> never turns into \<open>ACTIVE\<close>), and for a task that was already complete the
  entries of \<open>repos\<close> are unchanged.
\<close>

theorem updateJobStatus_idempotent:
  "db w = Some s \<Longrightarrow>
   (\<exists>row. db (fst (snd (updateJobStatus e j [] task rid w))) = Some row
      \<and> db (fst (snd (updateJobStatus e' j' [] task rid
                         (fst (snd (updateJobStatus e j [] task rid w)))))) = Some row
      \<and> repo_taskStatus row rid task = Some Complete
      \<and> (syncStatus row = ACTIVE \<longrightarrow> syncStatus s = ACTIVE)
      \<and> (repo_taskStatus s rid task = Some Complete \<and> wf_repos (repos s)
            \<longrightarrow> repos row = repos s))"
proof -
  assume d: "db w = Some s"
  let ?w1 = "fst (snd (updateJobStatus e j [] task rid w))"
  let ?row = "row_after s [] task rid"
  have d1: "db ?w1 = Some ?row"
    by (rule updateJobStatus_db [OF d])
  have d2: "db (fst (snd (updateJobStatus e' j' [] task rid ?w1))) = Some ?row"
    using updateJobStatus_db [OF d1, of e' j' "[]" task rid] by (simp add: row_after_again)
  show ?thesis
    using d1 d2 row_after_status [of s "[]" task rid] syncStatus_row_after [of s "[]" task rid]
      repos_row_after_noop [of s rid task]
    by auto
qed


theorem updateJobStatus_idempotent_witness:
  "db (fst (snd (updateJobStatus (env_failing 2000000 server_error) job0 [] Commit 1
       (fst (snd (updateJobStatus (env_failing 1000000 server_error) job0 [] Commit 1
                    (world_of sub_last_task)))))))
     = db (fst (snd (updateJobStatus (env_failing 1000000 server_error) job0 [] Commit 1
                       (world_of sub_last_task))))
   \<and> map_option (\<lambda>row. (repo_taskStatus row 1 Commit, syncStatus row))
        (db (fst (snd (updateJobStatus (env_failing 2000000 server_error) job0 [] Commit 1
          (fst (snd (updateJobStatus (env_failing 1000000 server_error) job0 [] Commit 1
                    (world_of sub_last_task))))))))
     = Some (Some Complete, COMPLETE)"
proof -
  have d: "db (world_of sub_last_task) = Some sub_last_task" by (simp add: world_of_def)
  have c: "map_option syncStatus
      (db (fst (snd (updateJobStatus (env_failing 1000000 server_error) job0 [] Commit 1
                       (world_of sub_last_task))))) = Some COMPLETE"
    by (simp add: engine_defs input_defs)
  show ?thesis
    using updateJobStatus_idempotent [OF d, where e = "env_failing 1000000 server_error"
        and j = job0 and task = Commit and rid = 1 and e' = "env_failing 2000000 server_error"
        and j' = job0] c
    by auto
qed


subsection \<open>The job handler\<close>

lemma repos_set_cursor: "repos (set_cursor rid task c s) = upd_repo rid (setCursor task c) (repos s)"
  by (simp add: set_cursor_def)

lemma repos_set_taskStatus:
  "repos (set_taskStatus rid task st s) = upd_repo rid (setTaskStatus task st) (repos s)"
  by (simp add: set_taskStatus_def)

lemma repo_ids_row_after:
  "fst ` set (repos (row_after s es task rid)) = insert rid (fst ` set (repos s))"
  by (simp add: row_after_def Let_def repos_set_cursor repos_set_taskStatus upd_repo_keys
        split: sum.splits option.splits)

lemma repo_ids_syncStatus [simp]:
  "repo_ids (map_option (\<lambda>row. row\<lparr>syncStatus := st\<rparr>) x) = repo_ids x"
  by (cases x) (simp_all add: repo_ids_def)

lemma keys_updateJobStatus:
  "repo_ids (db w) \<subseteq> repo_ids (db (fst (snd (updateJobStatus e j es task rid w))))"
proof (cases "db w")
  case None
  then show ?thesis by (simp add: updateJobStatus_deleted)
next
  case (Some s)
  show ?thesis
    using Some updateJobStatus_db [OF Some, of e j es task rid] repo_ids_row_after [of s es task rid]
    by (auto simp: repo_ids_def)
qed

lemma keys_catch:
  "repo_ids (db w) \<subseteq> repo_ids (db (fst (processInstallation_catch e j sub task rid err w)))"
proof -
  have nf: "repo_ids (db w) \<subseteq> repo_ids (db (fst (snd (updateJobStatus e j [] task rid (log RepositoryDeleted w)))))"
    using keys_updateJobStatus [of "log RepositoryDeleted w" e j "[]" task rid] by simp
  show ?thesis
    using nf
    by (auto simp: processInstallation_catch_def Let_def update_syncStatus_def
          split: option.splits prod.splits)
qed

lemma keys_try:
  assumes m: "\<forall>x. repo_ids x \<subseteq> repo_ids (concurrent e x)"
  shows "repo_ids (db w) \<subseteq> repo_ids (db (fst (processInstallation_try e j sub task rid repo c w)))"
proof -
  obtain calls result where x: "execute (processor e task repo c) = (calls, result)"
    by (cases "execute (processor e task repo c)") auto
  let ?w1 = "w\<lparr>fetched := fetched w @ calls, db := concurrent e (db w)\<rparr>"
  have k1: "repo_ids (db w) \<subseteq> repo_ids (db ?w1)" using m by simp
  have kc: "\<And>err. repo_ids (db w) \<subseteq> repo_ids (db (fst (processInstallation_catch e j sub task rid err ?w1)))"
    using k1 keys_catch [of ?w1 e j sub task rid] by blast
  have ku: "\<And>es. repo_ids (db w) \<subseteq> repo_ids (db (fst (snd (updateJobStatus e j es task rid ?w1))))"
    using k1 keys_updateJobStatus [of ?w1 e j _ task rid] by blast
  have kuc: "\<And>es err. repo_ids (db w) \<subseteq> repo_ids (db (fst (processInstallation_catch e j sub task rid err
       (fst (snd (updateJobStatus e j es task rid ?w1))))))"
    using ku keys_catch [of "fst (snd (updateJobStatus e j _ task rid ?w1))" e j sub task rid] by blast
  show ?thesis
  proof (cases result)
    case (Inl err)
    then show ?thesis using kc [of err] by (simp add: processInstallation_try_def x)
  next
    case (Inr p)
    show ?thesis
    proof (cases "case jiraPayload p of None \<Rightarrow> None | Some payload \<Rightarrow> jira_update e payload")
      case (Some err)
      then show ?thesis using Inr kc [of err] by (simp add: processInstallation_try_def x)
    next
      case None
      obtain i w2 r where u: "updateJobStatus e j (edges p) task rid ?w1 = (i, w2, r)"
        by (cases "updateJobStatus e j (edges p) task rid ?w1") auto
      show ?thesis
        using Inr None u ku [of "edges p"] kuc [of _ "edges p"]
        by (cases r) (simp_all add: processInstallation_try_def x)
    qed
  qed
qed


lemma processInstallation_deleted:
  "db w = None \<Longrightarrow> processInstallation e j w = (log StartingJob w, None)"
  by (simp add: processInstallation_def getSingleInstallation_def Let_def)

lemma processInstallation_unfold:
  assumes d: "db w = Some s"
  shows "processInstallation e j w =
    (let c = counted s;
         wc = persist_repoSyncState c (log StartingJob w)
     in case fst (getNextTask s w) of
          Inl err \<Rightarrow> (wc, Some err)
        | Inr None \<Rightarrow> (snd (update_syncStatus COMPLETE c wc), None)
        | Inr (Some nt) \<Rightarrow>
            (let a = c\<lparr>syncStatus := ACTIVE\<rparr>;
                 wa = snd (update_syncStatus ACTIVE c wc)
             in case nt_repository nt of
                  Some r \<Rightarrow>
                    processInstallation_try e j a (nt_task nt) (nt_repositoryId nt) r (nt_cursor nt)
                      (log (StartingTask (nt_repositoryId nt) (nt_task nt)) wa)
                | None \<Rightarrow>
                    (case get_repository e (nt_repositoryId nt) of
                       Inl err \<Rightarrow> (wa, Some err)
                     | Inr r \<Rightarrow>
                         processInstallation_try e j (fst (update_repository r a wa)) (nt_task nt)
                           (nt_repositoryId nt) r (nt_cursor nt)
                           (log (StartingTask (nt_repositoryId nt) (nt_task nt))
                              (snd (update_repository r a wa))))))"
proof -
  have g: "getNextTask s (log StartingJob w)
      = (fst (getNextTask s w), counted s, persist_repoSyncState (counted s) (log StartingJob w))"
    using getNextTask_eq [of s "log StartingJob w"] by (simp add: getNextTask_result)
  show ?thesis
    using d
    by (simp add: processInstallation_def getSingleInstallation_def g Let_def update_syncStatus_def
          split: sum.splits option.splits prod.splits)
qed


lemma keys_processInstallation:
  assumes m: "\<forall>x. repo_ids x \<subseteq> repo_ids (concurrent e x)"
  shows "repo_ids (db w) \<subseteq> repo_ids (db (fst (processInstallation e j w)))"
proof (cases "db w")
  case None
  then show ?thesis by (simp add: processInstallation_deleted)
next
  case (Some s)
  let ?c = "counted s"
  let ?wc = "persist_repoSyncState ?c (log StartingJob w)"
  let ?a = "?c\<lparr>syncStatus := ACTIVE\<rparr>"
  let ?wa = "snd (update_syncStatus ACTIVE ?c ?wc)"
  have dc: "db ?wc = Some ?c" using Some by (simp add: persist_fresh)
  have da: "db ?wa = Some ?a" using dc by (simp add: update_syncStatus_def)
  have kc: "repo_ids (db w) = repo_ids (db ?wc)" using Some dc by (simp add: repo_ids_def)
  have ka: "repo_ids (db w) = repo_ids (db ?wa)" using Some da by (simp add: repo_ids_def)
  show ?thesis
  proof (cases "fst (getNextTask s w)")
    case (Inl err)
    then show ?thesis using kc by (simp add: processInstallation_unfold [OF Some] Let_def)
  next
    case (Inr found)
    show ?thesis
    proof (cases found)
      case None
      then show ?thesis
        using Inr kc
        by (simp add: processInstallation_unfold [OF Some] Let_def update_syncStatus_def)
    next
      case (Some nt)
      note nt = Some
      show ?thesis
      proof (cases "nt_repository nt")
        case (Some r)
        have "repo_ids (db (log (StartingTask (nt_repositoryId nt) (nt_task nt)) ?wa))
            \<subseteq> repo_ids (db (fst (processInstallation_try e j ?a (nt_task nt) (nt_repositoryId nt) r
                 (nt_cursor nt) (log (StartingTask (nt_repositoryId nt) (nt_task nt)) ?wa))))"
          by (rule keys_try [OF m])
        then show ?thesis
          using Inr nt Some ka
          by (simp add: processInstallation_unfold [OF \<open>db w = Some s\<close>] Let_def)
      next
        case None
        show ?thesis
        proof (cases "get_repository e (nt_repositoryId nt)")
          case (Inl err)
          then show ?thesis
            using Inr nt None ka
            by (simp add: processInstallation_unfold [OF \<open>db w = Some s\<close>] Let_def)
        next
          case (Inr r)
          let ?w3 = "snd (update_repository r ?a ?wa)"
          have k3: "repo_ids (db w) \<subseteq> repo_ids (db ?w3)"
            using \<open>db w = Some s\<close> da
            by (auto simp: update_repository_def Let_def persist_repoSyncState_def repo_ids_def
                  upd_repo_keys)
          have "repo_ids (db (log (StartingTask (nt_repositoryId nt) (nt_task nt)) ?w3))
            \<subseteq> repo_ids (db (fst (processInstallation_try e j (fst (update_repository r ?a ?wa))
                 (nt_task nt) (nt_repositoryId nt) r
                 (nt_cursor nt) (log (StartingTask (nt_repositoryId nt) (nt_task nt)) ?w3))))"
            by (rule keys_try [OF m])
          then have "repo_ids (db w)
            \<subseteq> repo_ids (db (fst (processInstallation_try e j (fst (update_repository r ?a ?wa))
                 (nt_task nt) (nt_repositoryId nt) r
                 (nt_cursor nt) (log (StartingTask (nt_repositoryId nt) (nt_task nt)) ?w3))))"
            using k3 by simp
          then show ?thesis
            using \<open>fst (getNextTask s w) = Inr found\<close> nt None Inr
            by (simp add: processInstallation_unfold [OF \<open>db w = Some s\<close>] Let_def)
        qed
      qed
    qed
  qed
qed


text \<open>
  C5. No operation of the engine removes an entry of \<open>repos\<close>: \<open>getNextTask\<close> (with its
  update of the synced-repository count) leaves the entries of the instance and of the
  stored row as they are; after \<open>updateJobStatus\<close> the stored row still exists and has every
  repository id it had before; and so it has after \<open>processInstallation\<close>, provided the other
  writers to the store remove no entry either.
\<close>

theorem repos_never_shrink:
  "(db w = Some s \<longrightarrow>
      repos (fst (snd (getNextTask s w))) = repos s
      \<and> repo_ids (db (snd (snd (getNextTask s w)))) = repo_ids (db w))
   \<and> repo_ids (db w) \<subseteq> repo_ids (db (fst (snd (updateJobStatus e j es task rid w))))
   \<and> (db w \<noteq> None \<longrightarrow> db (fst (snd (updateJobStatus e j es task rid w))) \<noteq> None)
   \<and> ((\<forall>x. repo_ids x \<subseteq> repo_ids (concurrent e x)) \<longrightarrow>
        repo_ids (db w) \<subseteq> repo_ids (db (fst (processInstallation e j w))))"
proof (intro conjI impI)
  assume d: "db w = Some s"
  have g: "getNextTask s w = (fst (getNextTask s w), counted s, persist_repoSyncState (counted s) w)"
    by (rule getNextTask_eq)
  show "repos (fst (snd (getNextTask s w))) = repos s"
    by (subst g) simp
  have "db (snd (snd (getNextTask s w))) = Some (counted s)"
    using d by (subst g) (simp add: persist_fresh)
  then show "repo_ids (db (snd (snd (getNextTask s w)))) = repo_ids (db w)"
    using d by (simp add: repo_ids_def)
next
  show "repo_ids (db w) \<subseteq> repo_ids (db (fst (snd (updateJobStatus e j es task rid w))))"
    by (rule keys_updateJobStatus)
next
  assume "db w \<noteq> None"
  then obtain s' where "db w = Some s'" by auto
  then show "db (fst (snd (updateJobStatus e j es task rid w))) \<noteq> None"
    by (simp add: updateJobStatus_db)
next
  assume "\<forall>x. repo_ids x \<subseteq> repo_ids (concurrent e x)"
  then show "repo_ids (db w) \<subseteq> repo_ids (db (fst (processInstallation e j w)))"
    by (rule keys_processInstallation)
qed

theorem repos_never_shrink_witness:
  "repo_ids (db (world_of sub_two_repos)) = {1, 2}
   \<and> repo_ids (db (snd (snd (getNextTask sub_two_repos (world_of sub_two_repos))))) = {1, 2}
   \<and> repo_ids (db (fst (snd (updateJobStatus (env_failing 1000000 server_error) job0
                               [Edge ''c9''] Pull 3 (world_of sub_two_repos))))) = {1, 2, 3}
   \<and> repo_ids (db (fst (processInstallation (env_failing 1000000 server_error) job0
                          (world_of sub_two_repos)))) = {1, 2}"
proof -
  have d: "db (world_of sub_two_repos) = Some sub_two_repos" by (simp add: world_of_def)
  have m: "\<forall>x. repo_ids x \<subseteq> repo_ids (concurrent (env_failing 1000000 server_error) x)"
    by (simp add: env_failing_def)
  have k: "repo_ids (db (world_of sub_two_repos)) = {1, 2}"
    by (auto simp: repo_ids_def world_of_def sub_two_repos_def)
  have u: "repo_ids (db (fst (snd (updateJobStatus (env_failing 1000000 server_error) job0
                               [Edge ''c9''] Pull 3 (world_of sub_two_repos))))) = {1, 2, 3}"
    by (auto simp: repo_ids_def engine_defs input_defs)
  have p: "repo_ids (db (fst (processInstallation (env_failing 1000000 server_error) job0
                          (world_of sub_two_repos)))) = {1, 2}"
    by (auto simp: repo_ids_def engine_defs input_defs)
  show ?thesis
    using repos_never_shrink [where w = "world_of sub_two_repos" and s = sub_two_repos
        and e = "env_failing 1000000 server_error" and j = job0 and es = "[Edge ''c9'']"
        and task = Pull and rid = 3] d m k u p
    by simp
qed





lemma updateJobStatus_queue:
  "queue (fst (snd (updateJobStatus e j [] task rid w))) = queue w
   \<or> queue (fst (snd (updateJobStatus e j [] task rid w)))
        = queue w @ [(data j, \<lparr>add_attempts = Some 3, add_delay = None,
                                add_removeOnComplete = removeOnComplete (opts j),
                                add_removeOnFail = removeOnFail (opts j)\<rparr>)]"
proof (cases "db w")
  case None
  then show ?thesis by (simp add: updateJobStatus_deleted log_def)
next
  case (Some s)
  show ?thesis
    by (simp add: updateJobStatus_done [OF Some] Let_def world_ops
          split: sum.splits option.splits)
qed















text \<open>
  The delay the \<open>catch\<close> block computes from the header: none while the reset lies ahead,
  the time elapsed since the reset once it is past.
\<close>

lemma rateLimit_delay_future:
  "err_ratelimit_reset err = Some T \<Longrightarrow> now e \<le> T * 1000 \<Longrightarrow> rateLimit_delay e err = Some 0"
  by (simp add: rateLimit_delay_def)

lemma rateLimit_delay_past:
  "err_ratelimit_reset err = Some T \<Longrightarrow> T * 1000 < now e \<Longrightarrow>
   rateLimit_delay e err = Some (now e - T * 1000)"
  by (simp add: rateLimit_delay_def)

text \<open>
  C1. At \<open>Date.now() = 1000000\<close> an error with \<open>x-ratelimit-reset = 2000\<close> has its reset in
  the future (\<open>2000 * 1000 > 1000000\<close>); the claim has the job added again with delay
  \<open>1000000\<close> and the installation not marked failed. The code computes
  \<open>Math.max(Date.now() - rateLimit * 1000, 0) = 0\<close>, takes no delay branch, marks the
  installation \<open>FAILED\<close> and rejects. With \<open>x-ratelimit-reset = 500\<close> the reset is past and
  the claim has no delay-based re-enqueue; the code adds the job again with delay
  \<open>500000\<close>.
\<close>

theorem ratelimit_delay_inverted:
  "snd (processInstallation (env_failing 1000000 (rate_limited 2000)) job0 (world_of sub_last_task))
     = Some (rate_limited 2000)
   \<and> queue (fst (processInstallation (env_failing 1000000 (rate_limited 2000)) job0
                   (world_of sub_last_task))) = []
   \<and> map_option syncStatus
        (db (fst (processInstallation (env_failing 1000000 (rate_limited 2000)) job0
                    (world_of sub_last_task)))) = Some FAILED
   \<and> snd (processInstallation (env_failing 1000000 (rate_limited 500)) job0 (world_of sub_last_task))
     = None
   \<and> queue (fst (processInstallation (env_failing 1000000 (rate_limited 500)) job0
                   (world_of sub_last_task)))
     = [(data job0, \<lparr>add_attempts = None, add_delay = Some 500000,
                      add_removeOnComplete = Some True, add_removeOnFail = None\<rparr>)]
   \<and> map_option syncStatus
        (db (fst (processInstallation (env_failing 1000000 (rate_limited 500)) job0
                    (world_of sub_last_task)))) = Some ACTIVE"
  by (simp add: engine_defs input_defs rate_limited_def)

end
